theory Spec2Isabelle
  imports Complex_Main "HOL-Library.Word" "HOL-Library.Sublist"
begin

section \<open>Scalars of the gradient check\<close>

text \<open>
  \<open>DataType\<close> is the scalar type of the toolkit (a C++ \<open>float\<close> or \<open>double\<close>; its
  typedef is in \<open>lbann/base.hpp\<close>, outside the sources at hand). The callback tests its
  values with \<open>std::isnan\<close> and \<open>std::isinf\<close>, so the special values are part of the
  model: a scalar is a finite number, an infinity or a NaN, with the IEEE 754 rules for
  the special values. Finite arithmetic is exact: rounding, overflow of a finite result
  and the sign of zero are not modelled.
\<close>

datatype DataType = Fin real | PInf | NInf | NaN

fun isnan :: "DataType \<Rightarrow> bool" where
  "isnan NaN = True"
| "isnan _ = False"

fun isinf :: "DataType \<Rightarrow> bool" where
  "isinf PInf = True"
| "isinf NInf = True"
| "isinf _ = False"

fun is_zero :: "DataType \<Rightarrow> bool" where
  "is_zero (Fin x) = (x = 0)"
| "is_zero _ = False"

fun is_neg :: "DataType \<Rightarrow> bool" where
  "is_neg (Fin x) = (x < 0)"
| "is_neg NInf = True"
| "is_neg _ = False"

definition signed_inf :: "bool \<Rightarrow> DataType" where
  "signed_inf neg = (if neg then NInf else PInf)"

instantiation DataType :: "{uminus, plus, minus, times, inverse}"
begin

fun uminus_DataType :: "DataType \<Rightarrow> DataType" where
  "uminus_DataType (Fin x) = Fin (- x)"
| "uminus_DataType PInf = NInf"
| "uminus_DataType NInf = PInf"
| "uminus_DataType NaN = NaN"

fun plus_DataType :: "DataType \<Rightarrow> DataType \<Rightarrow> DataType" where
  "plus_DataType (Fin x) (Fin y) = Fin (x + y)"
| "plus_DataType NaN _ = NaN"
| "plus_DataType _ NaN = NaN"
| "plus_DataType PInf NInf = NaN"
| "plus_DataType NInf PInf = NaN"
| "plus_DataType PInf _ = PInf"
| "plus_DataType _ PInf = PInf"
| "plus_DataType NInf _ = NInf"
| "plus_DataType _ NInf = NInf"

definition minus_DataType :: "DataType \<Rightarrow> DataType \<Rightarrow> DataType" where
  "minus_DataType a b = a + (- b)"

fun times_DataType :: "DataType \<Rightarrow> DataType \<Rightarrow> DataType" where
  "times_DataType (Fin x) (Fin y) = Fin (x * y)"
| "times_DataType NaN _ = NaN"
| "times_DataType _ NaN = NaN"
| "times_DataType a b =
     (if is_zero a \<or> is_zero b then NaN else signed_inf (is_neg a \<noteq> is_neg b))"

fun divide_DataType :: "DataType \<Rightarrow> DataType \<Rightarrow> DataType" where
  "divide_DataType NaN _ = NaN"
| "divide_DataType _ NaN = NaN"
| "divide_DataType (Fin x) (Fin y) =
     (if y \<noteq> 0 then Fin (x / y) else if x = 0 then NaN else signed_inf (x < 0))"
| "divide_DataType (Fin x) _ = Fin 0"
| "divide_DataType a (Fin y) = signed_inf (is_neg a \<noteq> (y < 0))"
| "divide_DataType _ _ = NaN"

definition inverse_DataType :: "DataType \<Rightarrow> DataType" where
  "inverse_DataType a = divide (Fin 1) a"

instance ..

end

text \<open>\<open>std::fabs\<close>, \<open>std::sqrt\<close> and the two uses of \<open>std::pow\<close> (exponents 0.9 and 4).\<close>

fun fabs :: "DataType \<Rightarrow> DataType" where
  "fabs (Fin x) = Fin \<bar>x\<bar>"
| "fabs PInf = PInf"
| "fabs NInf = PInf"
| "fabs NaN = NaN"

fun std_sqrt :: "DataType \<Rightarrow> DataType" where
  "std_sqrt (Fin x) = (if x < 0 then NaN else Fin (sqrt x))"
| "std_sqrt PInf = PInf"
| "std_sqrt NInf = NaN"
| "std_sqrt NaN = NaN"

fun pow_0_9 :: "DataType \<Rightarrow> DataType" where
  "pow_0_9 (Fin x) = (if x < 0 then NaN else Fin (x powr (9 / 10)))"
| "pow_0_9 PInf = PInf"
| "pow_0_9 NInf = PInf"
| "pow_0_9 NaN = NaN"

fun pow_4 :: "DataType \<Rightarrow> DataType" where
  "pow_4 (Fin x) = Fin (x ^ 4)"
| "pow_4 PInf = PInf"
| "pow_4 NInf = PInf"
| "pow_4 NaN = NaN"

text \<open>The comparisons \<open><\<close>, \<open>>\<close> and \<open>!=\<close>: every ordered comparison with a NaN is
  false, and \<open>!=\<close> with a NaN is true.\<close>

fun dt_less :: "DataType \<Rightarrow> DataType \<Rightarrow> bool" where
  "dt_less NaN _ = False"
| "dt_less _ NaN = False"
| "dt_less (Fin x) (Fin y) = (x < y)"
| "dt_less _ NInf = False"
| "dt_less NInf _ = True"
| "dt_less PInf _ = False"
| "dt_less _ PInf = True"

definition dt_greater :: "DataType \<Rightarrow> DataType \<Rightarrow> bool" where
  "dt_greater a b = dt_less b a"

definition dt_ne :: "DataType \<Rightarrow> DataType \<Rightarrow> bool" where
  "dt_ne a b = (isnan a \<or> isnan b \<or> a \<noteq> b)"

text \<open>\<open>std::max(a, b)\<close> is \<open>(a < b) ? b : a\<close>.\<close>

definition std_max :: "DataType \<Rightarrow> DataType \<Rightarrow> DataType" where
  "std_max a b = (if dt_less a b then b else a)"

section \<open>The data reader\<close>

text \<open>
  The integer fields of \<open>generic_data_reader\<close> are C++ \<open>int\<close>s, 32 bits wide; the two
  index vectors are lists. \<open>m_first_n\<close> switches shuffling off.
\<close>

type_synonym int32 = "32 word"

record generic_data_reader =
  m_batch_size :: int32
  m_current_pos :: int32
  m_batch_stride :: int32
  m_base_offset :: int32
  m_model_offset :: int32
  m_sample_stride :: int32
  m_use_alt_last_mini_batch_size :: int32
  m_shuffled_indices :: "int32 list"
  m_unused_indices :: "int32 list"
  m_last_mini_batch_threshold :: int32
  m_last_mini_batch_size :: int32
  m_last_mini_batch_stride :: int32
  m_current_mini_batch_idx :: int32
  m_num_mini_batches_per_reader :: int32
  m_num_iterations_per_epoch :: int32
  m_first_n :: bool

text \<open>The cast \<open>(int)v.size()\<close>: the size, a \<open>size_t\<close>, wraps into 32 bits.\<close>

definition int_of_size :: "nat \<Rightarrow> int32" where
  "int_of_size n = word_of_nat n"

definition position_valid :: "generic_data_reader \<Rightarrow> bool" where
  "position_valid r = (m_current_pos r <s int_of_size (length (m_shuffled_indices r)))"

definition at_new_epoch :: "generic_data_reader \<Rightarrow> bool" where
  "at_new_epoch r = (m_current_mini_batch_idx r = 0)"

definition getNumData :: "generic_data_reader \<Rightarrow> int32" where
  "getNumData r = int_of_size (length (m_shuffled_indices r))"

text \<open>
  Modelled from the spec: \<open>generic_data_reader::update\<close> is declared in the header and
  defined in a file that is not among the sources. The spec (section 4.2): the cursor
  advances by \<open>batch_stride\<close>, or by \<open>last_mini_batch_stride\<close> once it has reached
  \<open>last_mini_batch_threshold\<close> (section 8, property 4: "once \<open>current_pos >= T\<close>"); when
  the resulting position is \<open>>= |shuffled_indices|\<close> the epoch is complete,
  \<open>current_mini_batch_idx\<close> resets to 0 and the indices are reshuffled if shuffling is
  configured; the result is true iff the update caused an epoch boundary. At the
  boundary \<open>current_pos\<close> resets (section 8, property 3), so that the invariant
  \<open>current_pos <= |shuffled_indices|\<close> of section 3 holds again; the header says of
  \<open>m_base_offset\<close> and \<open>m_model_offset\<close> that with them the reader "may not reset to zero",
  so the cursor is reset to their sum. Otherwise the update moves on to the next
  mini-batch of the epoch (section 3: the counters are "mutated by \<open>update()\<close> on every
  mini-batch consumption", and \<open>at_new_epoch()\<close> holds iff the index is 0), so
  \<open>current_mini_batch_idx\<close> is incremented. The permutation that the random generator
  produces is the parameter \<open>shuffle\<close>.
\<close>

definition passed_threshold :: "generic_data_reader \<Rightarrow> bool" where
  "passed_threshold r = (m_last_mini_batch_threshold r \<le>s m_current_pos r)"

definition next_stride :: "generic_data_reader \<Rightarrow> int32" where
  "next_stride r =
     (if passed_threshold r then m_last_mini_batch_stride r else m_batch_stride r)"

definition next_position :: "generic_data_reader \<Rightarrow> int32" where
  "next_position r = m_current_pos r + next_stride r"

definition epoch_complete :: "generic_data_reader \<Rightarrow> bool" where
  "epoch_complete r = (int (length (m_shuffled_indices r)) \<le> sint (next_position r))"

definition update :: "(int32 list \<Rightarrow> int32 list) \<Rightarrow> generic_data_reader
    \<Rightarrow> bool \<times> generic_data_reader" where
  "update shuffle r =
     (if epoch_complete r
      then (True, r\<lparr>m_current_pos := m_base_offset r + m_model_offset r,
                     m_current_mini_batch_idx := 0,
                     m_shuffled_indices :=
                       (if m_first_n r then m_shuffled_indices r
                        else shuffle (m_shuffled_indices r))\<rparr>)
      else (False, r\<lparr>m_current_pos := next_position r,
                      m_current_mini_batch_idx := m_current_mini_batch_idx r + 1\<rparr>))"

text \<open>
  Modelled from the spec: \<open>saveToCheckpointShared\<close> and \<open>loadFromCheckpointShared\<close> are
  declared in the header and defined in a file that is not among the sources. The spec
  (section 4.1): they serialize and deserialize \<open>shuffled_indices\<close>, \<open>unused_indices\<close>
  and the cursor fields (section 3, "Mini-Batch Cursor") as a named blob, and return
  success or failure and a byte count; reading malformed or truncated data fails with
  \<open>CorruptStateError\<close>. The blob is a sequence of cells: each vector as its size
  followed by its elements, then the eleven cursor fields.
\<close>

datatype cell = Size nat | Int32 int32

type_synonym blob = "cell list"

type_synonym persist = "string \<Rightarrow> blob option"

datatype checkpoint_error = CorruptStateError

definition cursor_fields :: "generic_data_reader \<Rightarrow> int32 list" where
  "cursor_fields r =
     [m_current_pos r, m_batch_stride r, m_base_offset r, m_model_offset r,
      m_sample_stride r, m_last_mini_batch_threshold r, m_last_mini_batch_size r,
      m_last_mini_batch_stride r, m_current_mini_batch_idx r,
      m_num_mini_batches_per_reader r, m_num_iterations_per_epoch r]"

definition write_vector :: "int32 list \<Rightarrow> blob" where
  "write_vector v = Size (length v) # map Int32 v"

definition serialize :: "generic_data_reader \<Rightarrow> blob" where
  "serialize r =
     write_vector (m_shuffled_indices r) @ write_vector (m_unused_indices r)
     @ map Int32 (cursor_fields r)"

fun cell_bytes :: "cell \<Rightarrow> nat" where
  "cell_bytes (Size n) = 8"
| "cell_bytes (Int32 w) = 4"

definition blob_bytes :: "blob \<Rightarrow> nat" where
  "blob_bytes b = sum_list (map cell_bytes b)"

fun read_ints :: "nat \<Rightarrow> blob \<Rightarrow> (int32 list \<times> blob) option" where
  "read_ints 0 b = Some ([], b)"
| "read_ints (Suc n) (Int32 w # b) =
     (case read_ints n b of
        None \<Rightarrow> None
      | Some (ws, rest) \<Rightarrow> Some (w # ws, rest))"
| "read_ints (Suc n) _ = None"

fun read_vector :: "blob \<Rightarrow> (int32 list \<times> blob) option" where
  "read_vector (Size n # b) = read_ints n b"
| "read_vector _ = None"

fun set_cursor_fields :: "int32 list \<Rightarrow> generic_data_reader \<Rightarrow> generic_data_reader option" where
  "set_cursor_fields [pos, bs, bo, mo, ss, lt, lsz, lst, idx, nmb, nit] r =
     Some (r\<lparr>m_current_pos := pos, m_batch_stride := bs, m_base_offset := bo,
              m_model_offset := mo, m_sample_stride := ss,
              m_last_mini_batch_threshold := lt, m_last_mini_batch_size := lsz,
              m_last_mini_batch_stride := lst, m_current_mini_batch_idx := idx,
              m_num_mini_batches_per_reader := nmb,
              m_num_iterations_per_epoch := nit\<rparr>)"
| "set_cursor_fields _ r = None"

definition deserialize :: "blob \<Rightarrow> generic_data_reader \<Rightarrow> generic_data_reader option" where
  "deserialize b r =
     (case read_vector b of
        None \<Rightarrow> None
      | Some (shuffled, b1) \<Rightarrow>
          (case read_vector b1 of
             None \<Rightarrow> None
           | Some (unused, b2) \<Rightarrow>
               (case read_ints (length (cursor_fields r)) b2 of
                  Some (cursor, []) \<Rightarrow>
                    set_cursor_fields cursor
                      (r\<lparr>m_shuffled_indices := shuffled, m_unused_indices := unused\<rparr>)
                | _ \<Rightarrow> None)))"

definition saveToCheckpointShared :: "persist \<Rightarrow> string \<Rightarrow> generic_data_reader
    \<Rightarrow> persist \<times> nat" where
  "saveToCheckpointShared p name r =
     (p(name \<mapsto> serialize r), blob_bytes (serialize r))"

definition loadFromCheckpointShared :: "persist \<Rightarrow> string \<Rightarrow> generic_data_reader
    \<Rightarrow> checkpoint_error + generic_data_reader \<times> nat" where
  "loadFromCheckpointShared p name r =
     (case p name of
        None \<Rightarrow> Inl CorruptStateError
      | Some b \<Rightarrow>
          (case deserialize b r of
             None \<Rightarrow> Inl CorruptStateError
           | Some r' \<Rightarrow> Inr (r', blob_bytes b)))"

section \<open>The gradient check\<close>

subsection \<open>Distributed matrices and weights\<close>

text \<open>
  One participant's view of a distributed matrix (\<open>AbsDistMat\<close>, of the Elemental
  library): the global shape, which global entries the participant holds, where it
  holds them in its local storage, and the local storage itself.
\<close>

record AbsDistMat =
  Height :: nat
  Width :: nat
  IsLocal :: "nat \<Rightarrow> nat \<Rightarrow> bool"
  LocalRow :: "nat \<Rightarrow> nat"
  LocalCol :: "nat \<Rightarrow> nat"
  RedundantRank :: nat
  local_data :: "nat \<times> nat \<Rightarrow> DataType"

definition GetLocal :: "AbsDistMat \<Rightarrow> nat \<Rightarrow> nat \<Rightarrow> DataType" where
  "GetLocal A i j = local_data A (i, j)"

definition SetLocal :: "AbsDistMat \<Rightarrow> nat \<Rightarrow> nat \<Rightarrow> DataType \<Rightarrow> AbsDistMat" where
  "SetLocal A i j v = A\<lparr>local_data := (local_data A)((i, j) := v)\<rparr>"

text \<open>A weights object: its name, its values, and the gradient matrix of its optimizer
  (\<open>None\<close> when \<open>get_optimizer()\<close> is the null pointer).\<close>

record optimizer =
  get_gradient :: AbsDistMat

record weights =
  get_name :: string
  get_values :: AbsDistMat
  get_optimizer :: "optimizer option"

text \<open>
  Modelled from the spec: \<open>weights::set_value\<close> is defined in a file that is not among
  the sources. The spec (sections 3 and 6): a weight exposes \<open>set(row, col, value)\<close> on
  a distributed matrix whose entries have local coordinates that are valid only on the
  owning participant; so the participant stores the value when it holds the entry, and
  has nothing to store otherwise.
\<close>

definition set_value :: "DataType \<Rightarrow> nat \<Rightarrow> nat \<Rightarrow> weights \<Rightarrow> weights" where
  "set_value v row col w =
     (let values = get_values w
      in if IsLocal values row col
         then w\<lparr>get_values := SetLocal values (LocalRow values row) (LocalCol values col) v\<rparr>
         else w)"

subsection \<open>The model and the calls into its collaborators\<close>

text \<open>
  The layers, the objective function, the metrics, the optimizers and the data readers
  are outside the sources. Every call that the callback makes into them is recorded, in
  order, in \<open>calls\<close>; what it writes to \<open>std::cout\<close> is recorded in \<open>cout\<close>. A layer
  is represented by whether it is a \<open>generic_input_layer\<close>. The execution mode is an enum
  of \<open>lbann/base.hpp\<close>, a type parameter here.
\<close>

datatype 'mode call =
    obj_reset_statistics 'mode
  | metric_reset_statistics nat 'mode
  | clear_gradient nat
  | forward_prop nat
  | start_evaluation 'mode int
  | finish_evaluation 'mode int
  | differentiate
  | compute_weight_regularization
  | back_prop nat
  | set_value_call nat DataType nat nat
  | set_initial_position nat 'mode

datatype line =
    Rule
  | GradientChecking
  | ObjectiveFunctionValue DataType
  | StepSize DataType
  | ExpectedGradientError DataType
  | Checking string
  | GradientError string nat nat
  | Entry string nat nat
  | Weight DataType
  | AnalyticalGradient DataType
  | NumericalGradient DataType
  | Error DataType
  | RelativeError DataType

record 'mode model =
  get_execution_mode :: 'mode
  get_current_mini_batch_size :: int
  am_world_master :: bool
  get_layers :: "bool list"
  get_metrics :: nat
  get_weights :: "weights list"
  calls :: "'mode call list"
  cout :: "line list"

text \<open>The callback's own fields.\<close>

record 'mode check_gradients =
  m_modes :: "'mode set"
  m_step_size :: DataType
  m_verbose :: bool
  m_error_on_failure :: bool

text \<open>\<open>LBANN_ERROR\<close> throws; the function then ends with \<open>Raised\<close> and the state
  as it is at the throw.\<close>

datatype outcome = Returned | Raised string

definition call_all :: "'mode call list \<Rightarrow> 'mode model \<Rightarrow> 'mode model" where
  "call_all cs m = m\<lparr>calls := calls m @ cs\<rparr>"

definition print :: "line list \<Rightarrow> 'mode model \<Rightarrow> 'mode model" where
  "print ls m = m\<lparr>cout := cout m @ ls\<rparr>"

definition input_layers :: "'mode model \<Rightarrow> nat list" where
  "input_layers m = filter (\<lambda>i. get_layers m ! i) [0..<length (get_layers m)]"

definition other_layers :: "'mode model \<Rightarrow> nat list" where
  "other_layers m = filter (\<lambda>i. \<not> get_layers m ! i) [0..<length (get_layers m)]"

text \<open>
  \<open>compute_objective_function\<close>: forward propagation through every layer that is not
  an input layer, then the evaluation of the objective function. The value that
  \<open>finish_evaluation\<close> returns is the parameter \<open>obj\<close>, a function of the weights as
  this participant holds them. The evaluation is collective, so for an entry that
  another participant holds the value depends on that participant's weights as well;
  the callback uses the four values only where it holds the entry (line 183), and there
  \<open>obj\<close> is applied to the weights with the perturbed entry.
\<close>

definition compute_objective_function ::
    "(weights list \<Rightarrow> DataType) \<Rightarrow> 'mode model \<Rightarrow> DataType \<times> 'mode model" where
  "compute_objective_function obj m =
     (let m1 = call_all (map forward_prop (other_layers m)) m;
          mode = get_execution_mode m1;
          mini_batch_size = get_current_mini_batch_size m1;
          m2 = call_all [start_evaluation mode mini_batch_size] m1
      in (obj (get_weights m2), call_all [finish_evaluation mode mini_batch_size] m2))"

text \<open>\<open>w->set_value(v, row, col)\<close> for the weights at position \<open>wi\<close> of the model.\<close>

definition set_value_at :: "nat \<Rightarrow> DataType \<Rightarrow> nat \<Rightarrow> nat \<Rightarrow> 'mode model \<Rightarrow> 'mode model" where
  "set_value_at wi v row col m =
     call_all [set_value_call wi v row col]
       (m\<lparr>get_weights := (get_weights m)[wi := set_value v row col (get_weights m ! wi)]\<rparr>)"

subsection \<open>Step size and expected error\<close>

text \<open>Lines 117 to 123. \<open>eps\<close> is \<open>std::numeric_limits<DataType>::epsilon()\<close>, a parameter
  since it depends on the scalar type.\<close>

definition epsilon :: "real \<Rightarrow> DataType" where
  "epsilon eps = pow_0_9 (Fin eps)"

definition step_size :: "real \<Rightarrow> 'mode check_gradients \<Rightarrow> DataType \<Rightarrow> DataType" where
  "step_size eps cb objective =
     (if dt_greater (m_step_size cb) (Fin 0) then m_step_size cb
      else fabs objective * std_sqrt (epsilon eps))"

definition expected_error :: "real \<Rightarrow> 'mode check_gradients \<Rightarrow> DataType \<Rightarrow> DataType" where
  "expected_error eps cb objective =
     pow_0_9 (epsilon eps * objective / step_size eps cb objective
              + pow_4 (step_size eps cb objective) / Fin 18)"

subsection \<open>One entry\<close>

definition initial_weight :: "AbsDistMat \<Rightarrow> nat \<Rightarrow> nat \<Rightarrow> DataType" where
  "initial_weight weights_matrix row col =
     (let weight_is_local = IsLocal weights_matrix row col;
          local_row = (if weight_is_local then LocalRow weights_matrix row else 0);
          local_col = (if weight_is_local then LocalCol weights_matrix col else 0)
      in if weight_is_local then GetLocal weights_matrix local_row local_col else Fin 0)"

definition numerical_gradient ::
    "DataType \<Rightarrow> DataType \<Rightarrow> DataType \<Rightarrow> DataType \<Rightarrow> DataType \<Rightarrow> DataType" where
  "numerical_gradient f_2h f_h f_nh f_n2h h =
     (- f_2h + Fin 8 * f_h - Fin 8 * f_nh + f_n2h) / (Fin 12 * h)"

definition relative_error :: "DataType \<Rightarrow> DataType \<Rightarrow> DataType" where
  "relative_error analytical numerical =
     (let error = fabs (analytical - numerical)
      in if dt_ne error (Fin 0)
         then error / std_max (fabs analytical) (fabs numerical)
         else Fin 0)"

definition large_error :: "DataType \<Rightarrow> DataType \<Rightarrow> bool" where
  "large_error error expected = (dt_greater error expected \<or> isnan error \<or> isinf error)"

definition entry_report :: "DataType \<Rightarrow> DataType \<Rightarrow> DataType \<Rightarrow> line list" where
  "entry_report w0 analytical numerical =
     [Weight w0, AnalyticalGradient analytical, NumericalGradient numerical,
      Error (fabs (analytical - numerical)), RelativeError (relative_error analytical numerical)]"

definition error_message :: string where
  "error_message =
     ''gradient checking found large difference between analytical and numerical gradients''"

definition check_entry ::
    "'mode check_gradients \<Rightarrow> (weights list \<Rightarrow> DataType) \<Rightarrow> DataType \<Rightarrow> DataType
      \<Rightarrow> nat \<Rightarrow> nat \<Rightarrow> nat \<Rightarrow> 'mode model \<Rightarrow> outcome \<times> 'mode model" where
  "check_entry cb obj h expected wi row col m =
     (let w = get_weights m ! wi;
          weights_matrix = get_values w;
          weight_is_local = IsLocal weights_matrix row col;
          local_row = (if weight_is_local then LocalRow weights_matrix row else 0);
          local_col = (if weight_is_local then LocalCol weights_matrix col else 0);
          w0 = initial_weight weights_matrix row col;
          (f_2h, m1) = compute_objective_function obj (set_value_at wi (w0 + Fin 2 * h) row col m);
          (f_h, m2) = compute_objective_function obj (set_value_at wi (w0 + h) row col m1);
          (f_nh, m3) = compute_objective_function obj (set_value_at wi (w0 - h) row col m2);
          (f_n2h, m4) = compute_objective_function obj (set_value_at wi (w0 - Fin 2 * h) row col m3);
          m5 = set_value_at wi w0 row col m4
      in if weight_is_local \<and> RedundantRank weights_matrix = 0
         then
           (let analytical_gradient =
                  GetLocal (get_gradient (the (get_optimizer w))) local_row local_col;
                numerical = numerical_gradient f_2h f_h f_nh f_n2h h;
                error = fabs (analytical_gradient - numerical)
            in if large_error error expected
               then
                 (let m6 = print (GradientError (get_name w) row col
                                  # entry_report w0 analytical_gradient numerical) m5
                  in if m_error_on_failure cb then (Raised error_message, m6)
                     else (Returned, m6))
               else if m_verbose cb
               then (Returned, print (Entry (get_name w) row col
                                      # entry_report w0 analytical_gradient numerical) m5)
               else (Returned, m5))
         else (Returned, m5))"

subsection \<open>The loops\<close>

text \<open>A \<open>for\<close> loop whose body may throw: the first throw ends it.\<close>

fun for_each :: "'a list \<Rightarrow> ('a \<Rightarrow> 's \<Rightarrow> outcome \<times> 's) \<Rightarrow> 's \<Rightarrow> outcome \<times> 's" where
  "for_each [] body s = (Returned, s)"
| "for_each (x # xs) body s =
     (case body x s of
        (Returned, s') \<Rightarrow> for_each xs body s'
      | (Raised e, s') \<Rightarrow> (Raised e, s'))"

text \<open>The body of the loop over the weights (lines 141 to 222): weights without an
  optimizer are skipped; the entries are visited column by column.\<close>

definition check_weights ::
    "'mode check_gradients \<Rightarrow> (weights list \<Rightarrow> DataType) \<Rightarrow> DataType \<Rightarrow> DataType
      \<Rightarrow> nat \<Rightarrow> 'mode model \<Rightarrow> outcome \<times> 'mode model" where
  "check_weights cb obj h expected wi m =
     (let w = get_weights m ! wi
      in if get_optimizer w = None then (Returned, m)
         else
           (let m1 = (if am_world_master m then print [Checking (get_name w)] m else m);
                weights_matrix = get_values w
            in for_each [0..<Width weights_matrix]
                 (\<lambda>col. for_each [0..<Height weights_matrix]
                    (\<lambda>row. check_entry cb obj h expected wi row col)) m1))"

subsection \<open>The callback\<close>

definition reset_statistics :: "'mode model \<Rightarrow> 'mode model" where
  "reset_statistics m =
     (let mode = get_execution_mode m
      in call_all (obj_reset_statistics mode
                   # map (\<lambda>k. metric_reset_statistics k mode) [0..<get_metrics m]) m)"

definition optimized_weights :: "'mode model \<Rightarrow> nat list" where
  "optimized_weights m =
     filter (\<lambda>wi. get_optimizer (get_weights m ! wi) \<noteq> None) [0..<length (get_weights m)]"

definition do_check_gradients ::
    "'mode check_gradients \<Rightarrow> real \<Rightarrow> (weights list \<Rightarrow> DataType) \<Rightarrow> 'mode model
      \<Rightarrow> outcome \<times> 'mode model" where
  "do_check_gradients cb eps obj m =
     (let mode = get_execution_mode m
      in if m_modes cb \<noteq> {} \<and> mode \<notin> m_modes cb then (Returned, m)
         else
           (let m1 = reset_statistics m;
                m2 = call_all (map clear_gradient (optimized_weights m1)) m1;
                m3 = call_all (map forward_prop (input_layers m2)) m2;
                (objective, m4) = compute_objective_function obj m3;
                h = step_size eps cb objective;
                expected = expected_error eps cb objective;
                m5 = call_all (differentiate # compute_weight_regularization
                               # map back_prop (rev [0..<length (get_layers m4)])) m4;
                m6 = (if am_world_master m5
                      then print [Rule, GradientChecking, ObjectiveFunctionValue objective,
                                  StepSize h, ExpectedGradientError expected] m5
                      else m5)
            in case for_each [0..<length (get_weights m6)]
                      (check_weights cb obj h expected) m6 of
                 (Raised e, m7) \<Rightarrow> (Raised e, m7)
               | (Returned, m7) \<Rightarrow>
                   (let m8 = (if am_world_master m7 then print [Rule] m7 else m7);
                        m9 = call_all (map (\<lambda>i. set_initial_position i mode) (input_layers m8)) m8
                    in (Returned, reset_statistics m9))))"

subsection \<open>Collaborators that throw\<close>






section \<open>What a run of the gradient check does\<close>

text \<open>
  The functions of this section are not in the source: they say what a run appends to
  \<open>calls\<close> and \<open>cout\<close>, and the theorems below state the claims with them.
  \<open>logged cs ls m\<close> is \<open>m\<close> after the calls \<open>cs\<close> and the output \<open>ls\<close>; \<open>frame m\<close> is
  \<open>m\<close> without its record of calls and output; \<open>with_weights ws m\<close> is \<open>m\<close> holding
  the weights \<open>ws\<close>.
\<close>

definition logged :: "'mode call list \<Rightarrow> line list \<Rightarrow> 'mode model \<Rightarrow> 'mode model" where
  "logged cs ls m = m\<lparr>calls := calls m @ cs, cout := cout m @ ls\<rparr>"

definition frame :: "'mode model \<Rightarrow> 'mode model" where
  "frame m = m\<lparr>calls := [], cout := []\<rparr>"

definition with_weights :: "weights list \<Rightarrow> 'mode model \<Rightarrow> 'mode model" where
  "with_weights ws m = m\<lparr>get_weights := ws\<rparr>"

text \<open>The calls of one \<open>compute_objective_function\<close>.\<close>

definition eval_calls :: "'mode model \<Rightarrow> 'mode call list" where
  "eval_calls m =
     map forward_prop (other_layers m)
     @ [start_evaluation (get_execution_mode m) (get_current_mini_batch_size m),
        finish_evaluation (get_execution_mode m) (get_current_mini_batch_size m)]"

text \<open>The weights after \<open>set_value(v, row, col)\<close> on the weights at position \<open>wi\<close>.\<close>

definition perturbed :: "weights list \<Rightarrow> nat \<Rightarrow> nat \<Rightarrow> nat \<Rightarrow> DataType \<Rightarrow> weights list" where
  "perturbed ws wi row col v = ws[wi := set_value v row col (ws ! wi)]"

text \<open>
  One entry \<open>(row, col)\<close> of the weights at position \<open>wi\<close>, for the step \<open>h\<close>: whether this
  participant compares the gradients (it holds the entry and has redundant rank 0), the
  value \<open>w0\<close> it reads, the analytical gradient, the numerical gradient (the objective
  taken at the four perturbed weights), the error, whether the entry fails the check,
  the lines written for it, whether the check of the entry throws, and the calls made.
\<close>

definition entry_compared :: "weights list \<Rightarrow> nat \<Rightarrow> nat \<Rightarrow> nat \<Rightarrow> bool" where
  "entry_compared ws wi row col =
     (IsLocal (get_values (ws ! wi)) row col \<and> RedundantRank (get_values (ws ! wi)) = 0)"

definition entry_weight :: "weights list \<Rightarrow> nat \<Rightarrow> nat \<Rightarrow> nat \<Rightarrow> DataType" where
  "entry_weight ws wi row col = initial_weight (get_values (ws ! wi)) row col"

definition entry_analytical :: "weights list \<Rightarrow> nat \<Rightarrow> nat \<Rightarrow> nat \<Rightarrow> DataType" where
  "entry_analytical ws wi row col =
     GetLocal (get_gradient (the (get_optimizer (ws ! wi))))
       (LocalRow (get_values (ws ! wi)) row) (LocalCol (get_values (ws ! wi)) col)"

definition entry_numerical ::
    "(weights list \<Rightarrow> DataType) \<Rightarrow> DataType \<Rightarrow> weights list \<Rightarrow> nat \<Rightarrow> nat \<Rightarrow> nat \<Rightarrow> DataType" where
  "entry_numerical obj h ws wi row col =
     (let w0 = entry_weight ws wi row col
      in numerical_gradient
           (obj (perturbed ws wi row col (w0 + Fin 2 * h)))
           (obj (perturbed ws wi row col (w0 + h)))
           (obj (perturbed ws wi row col (w0 - h)))
           (obj (perturbed ws wi row col (w0 - Fin 2 * h))) h)"

definition entry_error ::
    "(weights list \<Rightarrow> DataType) \<Rightarrow> DataType \<Rightarrow> weights list \<Rightarrow> nat \<Rightarrow> nat \<Rightarrow> nat \<Rightarrow> DataType" where
  "entry_error obj h ws wi row col =
     fabs (entry_analytical ws wi row col - entry_numerical obj h ws wi row col)"

definition entry_fails ::
    "(weights list \<Rightarrow> DataType) \<Rightarrow> DataType \<Rightarrow> DataType \<Rightarrow> weights list
      \<Rightarrow> nat \<Rightarrow> nat \<Rightarrow> nat \<Rightarrow> bool" where
  "entry_fails obj h expected ws wi row col =
     (entry_compared ws wi row col \<and> large_error (entry_error obj h ws wi row col) expected)"

definition entry_details ::
    "(weights list \<Rightarrow> DataType) \<Rightarrow> DataType \<Rightarrow> weights list \<Rightarrow> nat \<Rightarrow> nat \<Rightarrow> nat \<Rightarrow> line list" where
  "entry_details obj h ws wi row col =
     entry_report (entry_weight ws wi row col) (entry_analytical ws wi row col)
       (entry_numerical obj h ws wi row col)"

definition entry_lines ::
    "'mode check_gradients \<Rightarrow> (weights list \<Rightarrow> DataType) \<Rightarrow> DataType \<Rightarrow> DataType
      \<Rightarrow> weights list \<Rightarrow> nat \<Rightarrow> nat \<Rightarrow> nat \<Rightarrow> line list" where
  "entry_lines cb obj h expected ws wi row col =
     (if entry_fails obj h expected ws wi row col
      then GradientError (get_name (ws ! wi)) row col # entry_details obj h ws wi row col
      else if entry_compared ws wi row col \<and> m_verbose cb
      then Entry (get_name (ws ! wi)) row col # entry_details obj h ws wi row col
      else [])"

definition entry_outcome ::
    "'mode check_gradients \<Rightarrow> (weights list \<Rightarrow> DataType) \<Rightarrow> DataType \<Rightarrow> DataType
      \<Rightarrow> weights list \<Rightarrow> nat \<Rightarrow> nat \<Rightarrow> nat \<Rightarrow> outcome" where
  "entry_outcome cb obj h expected ws wi row col =
     (if entry_fails obj h expected ws wi row col \<and> m_error_on_failure cb
      then Raised error_message else Returned)"

definition entry_calls :: "'mode model \<Rightarrow> DataType \<Rightarrow> nat \<Rightarrow> nat \<Rightarrow> nat \<Rightarrow> 'mode call list" where
  "entry_calls m h wi row col =
     (let w0 = entry_weight (get_weights m) wi row col
      in [set_value_call wi (w0 + Fin 2 * h) row col] @ eval_calls m
         @ [set_value_call wi (w0 + h) row col] @ eval_calls m
         @ [set_value_call wi (w0 - h) row col] @ eval_calls m
         @ [set_value_call wi (w0 - Fin 2 * h) row col] @ eval_calls m
         @ [set_value_call wi w0 row col])"

text \<open>The entries that the loops visit: every entry of every weights object that has an
  optimizer. The check is needed when the set of modes is empty or holds the model's
  mode (line 85).\<close>

definition checked_entry :: "'mode model \<Rightarrow> nat \<Rightarrow> nat \<Rightarrow> nat \<Rightarrow> bool" where
  "checked_entry m wi row col =
     (wi < length (get_weights m) \<and> get_optimizer (get_weights m ! wi) \<noteq> None
      \<and> row < Height (get_values (get_weights m ! wi))
      \<and> col < Width (get_values (get_weights m ! wi)))"

definition check_needed :: "'mode check_gradients \<Rightarrow> 'mode model \<Rightarrow> bool" where
  "check_needed cb m = (m_modes cb = {} \<or> get_execution_mode m \<in> m_modes cb)"

text \<open>
  A trace is what a piece of the run contributes: its outcome, its calls, its output.
  A loop contributes the traces of its iterations up to and including the first that
  throws.
\<close>

fun first_raise :: "('a \<Rightarrow> outcome) \<Rightarrow> 'a list \<Rightarrow> outcome" where
  "first_raise out [] = Returned"
| "first_raise out (x # xs) =
     (case out x of Returned \<Rightarrow> first_raise out xs | Raised e \<Rightarrow> Raised e)"

fun scanned :: "('a \<Rightarrow> outcome) \<Rightarrow> 'a list \<Rightarrow> 'a list" where
  "scanned out [] = []"
| "scanned out (x # xs) =
     (case out x of Returned \<Rightarrow> x # scanned out xs | Raised e \<Rightarrow> [x])"

type_synonym 'mode trace = "outcome \<times> 'mode call list \<times> line list"

definition run :: "'mode trace \<Rightarrow> 'mode model \<Rightarrow> outcome \<times> 'mode model" where
  "run t s = (fst t, logged (fst (snd t)) (snd (snd t)) s)"

definition seq_traces :: "('a \<Rightarrow> 'mode trace) \<Rightarrow> 'a list \<Rightarrow> 'mode trace" where
  "seq_traces t xs =
     (first_raise (\<lambda>x. fst (t x)) xs,
      concat (map (\<lambda>x. fst (snd (t x))) (scanned (\<lambda>x. fst (t x)) xs)),
      concat (map (\<lambda>x. snd (snd (t x))) (scanned (\<lambda>x. fst (t x)) xs)))"

definition entry_trace ::
    "'mode check_gradients \<Rightarrow> (weights list \<Rightarrow> DataType) \<Rightarrow> DataType \<Rightarrow> DataType
      \<Rightarrow> 'mode model \<Rightarrow> nat \<Rightarrow> nat \<Rightarrow> nat \<Rightarrow> 'mode trace" where
  "entry_trace cb obj h expected m wi col row =
     (entry_outcome cb obj h expected (get_weights m) wi row col,
      entry_calls m h wi row col,
      entry_lines cb obj h expected (get_weights m) wi row col)"

definition column_trace ::
    "'mode check_gradients \<Rightarrow> (weights list \<Rightarrow> DataType) \<Rightarrow> DataType \<Rightarrow> DataType
      \<Rightarrow> 'mode model \<Rightarrow> nat \<Rightarrow> nat \<Rightarrow> 'mode trace" where
  "column_trace cb obj h expected m wi col =
     seq_traces (entry_trace cb obj h expected m wi col)
       [0..<Height (get_values (get_weights m ! wi))]"

definition weights_trace ::
    "'mode check_gradients \<Rightarrow> (weights list \<Rightarrow> DataType) \<Rightarrow> DataType \<Rightarrow> DataType
      \<Rightarrow> 'mode model \<Rightarrow> nat \<Rightarrow> 'mode trace" where
  "weights_trace cb obj h expected m wi =
     (let w = get_weights m ! wi
      in if get_optimizer w = None then (Returned, [], [])
         else
           (let t = seq_traces (column_trace cb obj h expected m wi)
                      [0..<Width (get_values w)]
            in (fst t, fst (snd t),
                (if am_world_master m then [Checking (get_name w)] else []) @ snd (snd t))))"

definition scan_trace ::
    "'mode check_gradients \<Rightarrow> (weights list \<Rightarrow> DataType) \<Rightarrow> DataType \<Rightarrow> DataType
      \<Rightarrow> 'mode model \<Rightarrow> 'mode trace" where
  "scan_trace cb obj h expected m =
     seq_traces (weights_trace cb obj h expected m) [0..<length (get_weights m)]"

text \<open>The calls before the loop over the weights (lines 88 to 130), the calls after it
  (lines 229 to 239) and the lines printed before it.\<close>

definition reset_calls :: "'mode model \<Rightarrow> 'mode call list" where
  "reset_calls m =
     obj_reset_statistics (get_execution_mode m)
     # map (\<lambda>k. metric_reset_statistics k (get_execution_mode m)) [0..<get_metrics m]"

definition prelude_calls :: "'mode model \<Rightarrow> 'mode call list" where
  "prelude_calls m =
     reset_calls m @ map clear_gradient (optimized_weights m)
     @ map forward_prop (input_layers m) @ eval_calls m
     @ differentiate # compute_weight_regularization
       # map back_prop (rev [0..<length (get_layers m)])"

definition cleanup_calls :: "'mode model \<Rightarrow> 'mode call list" where
  "cleanup_calls m =
     map (\<lambda>i. set_initial_position i (get_execution_mode m)) (input_layers m)
     @ reset_calls m"

definition header_lines :: "real \<Rightarrow> 'mode check_gradients \<Rightarrow> DataType \<Rightarrow> line list" where
  "header_lines eps cb objective =
     [Rule, GradientChecking, ObjectiveFunctionValue objective,
      StepSize (step_size eps cb objective),
      ExpectedGradientError (expected_error eps cb objective)]"

text \<open>The expected error as the specification words it, with the machine epsilon itself
  in the first term.\<close>

definition claimed_expected_error :: "real \<Rightarrow> DataType \<Rightarrow> DataType \<Rightarrow> DataType" where
  "claimed_expected_error eps f0 h = pow_0_9 (Fin eps * f0 / h + pow_4 h / Fin 18)"

text \<open>
  The entries in the order in which the loops visit them: the weights by position, the
  columns of a weights matrix, the rows of a column; weights without an optimizer have
  no entries. An element of \<open>scan_order\<close> is \<open>(wi, col, row)\<close>. \<open>up_to_first P xs\<close> is
  \<open>xs\<close> up to and including its first element with \<open>P\<close>, and all of \<open>xs\<close> when there is
  none. \<open>entry_throws\<close> says whether the check of an entry ends with \<open>LBANN_ERROR\<close>.
\<close>

definition up_to_first :: "('a \<Rightarrow> bool) \<Rightarrow> 'a list \<Rightarrow> 'a list" where
  "up_to_first P xs = takeWhile (\<lambda>x. \<not> P x) xs @ take 1 (dropWhile (\<lambda>x. \<not> P x) xs)"

definition flat :: "('a \<Rightarrow> 'b list) \<Rightarrow> 'a list \<Rightarrow> ('a \<times> 'b) list" where
  "flat ys xs = concat (map (\<lambda>x. map (Pair x) (ys x)) xs)"

definition weights_entries :: "'mode model \<Rightarrow> nat \<Rightarrow> (nat \<times> nat) list" where
  "weights_entries m wi =
     (let w = get_weights m ! wi
      in if get_optimizer w = None then []
         else flat (\<lambda>col. [0..<Height (get_values w)]) [0..<Width (get_values w)])"

definition scan_order :: "'mode model \<Rightarrow> (nat \<times> nat \<times> nat) list" where
  "scan_order m = flat (weights_entries m) [0..<length (get_weights m)]"

definition entry_throws ::
    "'mode check_gradients \<Rightarrow> (weights list \<Rightarrow> DataType) \<Rightarrow> DataType \<Rightarrow> DataType
      \<Rightarrow> weights list \<Rightarrow> nat \<times> nat \<times> nat \<Rightarrow> bool" where
  "entry_throws cb obj h expected ws =
     (\<lambda>(wi, col, row). m_error_on_failure cb \<and> entry_fails obj h expected ws wi row col)"



section \<open>Concrete inputs\<close>

text \<open>A reader whose index vector has \<open>2^31\<close> entries, one more than the largest
  \<open>int\<close>.\<close>

definition big_reader :: generic_data_reader where
  "big_reader =
     \<lparr>m_batch_size = 1, m_current_pos = 0, m_batch_stride = 1, m_base_offset = 0,
      m_model_offset = 0, m_sample_stride = 1, m_use_alt_last_mini_batch_size = 0,
      m_shuffled_indices = replicate (2 ^ 31) 0, m_unused_indices = [],
      m_last_mini_batch_threshold = 0, m_last_mini_batch_size = 1,
      m_last_mini_batch_stride = 1, m_current_mini_batch_idx = 0,
      m_num_mini_batches_per_reader = 0, m_num_iterations_per_epoch = 0,
      m_first_n = False\<rparr>"

text \<open>The reader of section 8, property 4 of the specification: 105 samples, batches of
  10, a last mini-batch of 5 from position 100; at position \<open>pos\<close> in mini-batch \<open>idx\<close>.\<close>

definition epoch_reader :: "int32 \<Rightarrow> int32 \<Rightarrow> generic_data_reader" where
  "epoch_reader pos idx =
     \<lparr>m_batch_size = 10, m_current_pos = pos, m_batch_stride = 10, m_base_offset = 0,
      m_model_offset = 0, m_sample_stride = 1, m_use_alt_last_mini_batch_size = 1,
      m_shuffled_indices = map word_of_nat [0..<105], m_unused_indices = [],
      m_last_mini_batch_threshold = 100, m_last_mini_batch_size = 5,
      m_last_mini_batch_stride = 5, m_current_mini_batch_idx = idx,
      m_num_mini_batches_per_reader = 11, m_num_iterations_per_epoch = 11,
      m_first_n = False\<rparr>"

text \<open>A reader of five samples, in its third mini-batch.\<close>

definition small_reader :: generic_data_reader where
  "small_reader =
     \<lparr>m_batch_size = 2, m_current_pos = 4, m_batch_stride = 2, m_base_offset = 0,
      m_model_offset = 0, m_sample_stride = 1, m_use_alt_last_mini_batch_size = 1,
      m_shuffled_indices = [3, 0, 4, 1, 2], m_unused_indices = [],
      m_last_mini_batch_threshold = 4, m_last_mini_batch_size = 1,
      m_last_mini_batch_stride = 1, m_current_mini_batch_idx = 2,
      m_num_mini_batches_per_reader = 3, m_num_iterations_per_epoch = 3,
      m_first_n = False\<rparr>"

text \<open>
  Inputs of the gradient check: the machine epsilon of \<open>float\<close>; a callback with a fixed
  step that logs failures, and one restricted to training that throws; a model with one
  \<open>1 \<times> 1\<close> weights matrix of value 1 whose optimizer holds the gradient \<open>g\<close>, an input
  layer and one other layer; the same model in testing mode; a model without weights;
  and the objective that squares the weight.
\<close>

definition float_epsilon :: real where
  "float_epsilon = 1 / 8388608"

definition fixed_step :: "string check_gradients" where
  "fixed_step =
     \<lparr>m_modes = {}, m_step_size = Fin (1 / 1024), m_verbose = True,
      m_error_on_failure = False\<rparr>"

definition strict :: "string check_gradients" where
  "strict =
     \<lparr>m_modes = {''training''}, m_step_size = Fin (1 / 1024), m_verbose = False,
      m_error_on_failure = True\<rparr>"

definition scalar_matrix :: "DataType \<Rightarrow> AbsDistMat" where
  "scalar_matrix v =
     \<lparr>Height = 1, Width = 1, IsLocal = (\<lambda>row col. True), LocalRow = (\<lambda>row. row),
      LocalCol = (\<lambda>col. col), RedundantRank = 0, local_data = (\<lambda>p. v)\<rparr>"

definition one_weight :: "DataType \<Rightarrow> string model" where
  "one_weight g =
     \<lparr>get_execution_mode = ''training'', get_current_mini_batch_size = 1,
      am_world_master = True, get_layers = [True, False], get_metrics = 1,
      get_weights =
        [\<lparr>get_name = ''w'', get_values = scalar_matrix (Fin 1),
          get_optimizer = Some \<lparr>get_gradient = scalar_matrix g\<rparr>\<rparr>],
      calls = [], cout = []\<rparr>"


definition no_weights :: "string model" where
  "no_weights =
     \<lparr>get_execution_mode = ''training'', get_current_mini_batch_size = 1,
      am_world_master = True, get_layers = [], get_metrics = 0, get_weights = [],
      calls = [], cout = []\<rparr>"

definition square :: "weights list \<Rightarrow> DataType" where
  "square ws = GetLocal (get_values (ws ! 0)) 0 0 * GetLocal (get_values (ws ! 0)) 0 0"

text \<open>
  A model with one \<open>2 \<times> 1\<close> weights matrix of value 1 whose optimizer holds the gradient
  \<open>g\<close> in both entries; and an objective whose evaluation throws when the weight exceeds
  1 and squares the weight otherwise.
\<close>

definition column_matrix :: "DataType \<Rightarrow> AbsDistMat" where
  "column_matrix v =
     \<lparr>Height = 2, Width = 1, IsLocal = (\<lambda>row col. True), LocalRow = (\<lambda>row. row),
      LocalCol = (\<lambda>col. col), RedundantRank = 0, local_data = (\<lambda>p. v)\<rparr>"

definition two_rows :: "DataType \<Rightarrow> string model" where
  "two_rows g =
     \<lparr>get_execution_mode = ''training'', get_current_mini_batch_size = 1,
      am_world_master = True, get_layers = [True, False], get_metrics = 1,
      get_weights =
        [\<lparr>get_name = ''w'', get_values = column_matrix (Fin 1),
          get_optimizer = Some \<lparr>get_gradient = column_matrix g\<rparr>\<rparr>],
      calls = [], cout = []\<rparr>"


section \<open>Properties of the data reader\<close>

lemma sint_int_of_size: "n < 2 ^ 31 \<Longrightarrow> sint (int_of_size n) = int n"
  unfolding int_of_size_def
  by (simp add: signed_of_nat signed_take_bit_int_eq_self)

text \<open>
  C9, as amended. For every reader state whose index vector has at most \<open>INT_MAX\<close>
  entries, \<open>position_valid()\<close> is true iff \<open>current_pos < |shuffled_indices|\<close>, and
  \<open>at_new_epoch()\<close> is true iff \<open>current_mini_batch_idx == 0\<close>.
\<close>

theorem position_valid_at_new_epoch:
  assumes "length (m_shuffled_indices r) < 2 ^ 31"
  shows "(position_valid r \<longleftrightarrow> sint (m_current_pos r) < int (length (m_shuffled_indices r)))
       \<and> (at_new_epoch r \<longleftrightarrow> m_current_mini_batch_idx r = 0)"
  using assms
  by (simp add: position_valid_def at_new_epoch_def word_sless_alt sint_int_of_size)

theorem position_valid_at_new_epoch_witness:
  "position_valid small_reader \<and> \<not> at_new_epoch small_reader"
  using position_valid_at_new_epoch [of small_reader]
  by (simp add: small_reader_def)

text \<open>
  C9 as stated fails where the size of the index vector does not fit an \<open>int\<close>: with
  \<open>2^31\<close> entries the cast \<open>(int)m_shuffled_indices.size()\<close> is negative, and the
  position 0 is reported as not valid although \<open>0 < 2^31\<close>.
\<close>

theorem position_valid_counterexample:
  "\<not> (position_valid big_reader \<longleftrightarrow>
        sint (m_current_pos big_reader) < int (length (m_shuffled_indices big_reader)))"
  by (simp add: position_valid_def big_reader_def int_of_size_def word_sless_alt)

text \<open>
  C2. A call of \<open>update()\<close> advances \<open>current_pos\<close> by \<open>batch_stride\<close>, or by
  \<open>last_mini_batch_stride\<close> when \<open>current_pos\<close> has reached
  \<open>last_mini_batch_threshold\<close>. It returns true iff the resulting position is
  \<open>>= |shuffled_indices|\<close>. Exactly then the epoch is complete: \<open>current_mini_batch_idx\<close>
  is reset to 0, the cursor is reset, and, unless shuffling is switched off,
  \<open>shuffled_indices\<close> is reshuffled. Otherwise the cursor stays at the resulting
  position, which is valid, and the index of the mini-batch is incremented; so
  \<open>at_new_epoch()\<close> holds after the update iff it returned true.
\<close>

theorem update_epoch_boundary:
  "(let stride = (if m_last_mini_batch_threshold r \<le>s m_current_pos r
                  then m_last_mini_batch_stride r else m_batch_stride r);
        pos = m_current_pos r + stride;
        boundary = (int (length (m_shuffled_indices r)) \<le> sint pos);
        (result, r') = update shuffle r
    in result = boundary
       \<and> m_current_pos r' = (if boundary then m_base_offset r + m_model_offset r else pos)
       \<and> m_current_mini_batch_idx r' =
           (if boundary then 0 else m_current_mini_batch_idx r + 1)
       \<and> m_shuffled_indices r' =
           (if boundary \<and> \<not> m_first_n r then shuffle (m_shuffled_indices r)
            else m_shuffled_indices r)
       \<and> (m_current_mini_batch_idx r \<noteq> - 1 \<longrightarrow> (at_new_epoch r' \<longleftrightarrow> result))
       \<and> (length (m_shuffled_indices r) < 2 ^ 31 \<and> \<not> result \<longrightarrow> position_valid r'))"
proof -
  define pos where "pos = m_current_pos r + next_stride r"
  have stride: "next_stride r =
      (if m_last_mini_batch_threshold r \<le>s m_current_pos r
       then m_last_mini_batch_stride r else m_batch_stride r)"
    by (simp add: next_stride_def passed_threshold_def)
  have boundary: "epoch_complete r \<longleftrightarrow> int (length (m_shuffled_indices r)) \<le> sint pos"
    by (simp add: epoch_complete_def next_position_def pos_def)
  have idx: "m_current_mini_batch_idx r + 1 = 0 \<longleftrightarrow> m_current_mini_batch_idx r = - 1"
    by (simp add: eq_neg_iff_add_eq_0)
  have valid: "position_valid (r\<lparr>m_current_pos := pos, m_current_mini_batch_idx := i\<rparr>)"
    if "length (m_shuffled_indices r) < 2 ^ 31" "\<not> epoch_complete r" for i
    using that by (simp add: position_valid_def word_sless_alt sint_int_of_size boundary)
  show ?thesis
  proof (cases "epoch_complete r")
    case True
    then show ?thesis
      unfolding Let_def stride [symmetric] pos_def [symmetric] boundary [symmetric]
      by (simp add: update_def at_new_epoch_def)
  next
    case False
    then show ?thesis
      unfolding Let_def stride [symmetric] pos_def [symmetric] boundary [symmetric]
      using valid
      by (simp add: update_def at_new_epoch_def idx next_position_def pos_def [symmetric])
  qed
qed

text \<open>The scenario of section 8, property 4: the update at position 90 leads to the
  eleventh mini-batch at position 100; the update there uses the last stride, reaches
  105, and ends the epoch.\<close>

theorem update_epoch_boundary_witness:
  "update rev (epoch_reader 90 9) = (False, epoch_reader 100 10)
   \<and> position_valid (epoch_reader 100 10) \<and> \<not> at_new_epoch (epoch_reader 100 10)
   \<and> fst (update rev (epoch_reader 100 10))
   \<and> m_current_pos (snd (update rev (epoch_reader 100 10))) = 0
   \<and> at_new_epoch (snd (update rev (epoch_reader 100 10)))
   \<and> m_shuffled_indices (snd (update rev (epoch_reader 100 10)))
       = rev (map word_of_nat [0..<105])"
proof -
  have a: "update rev (epoch_reader 90 9) = (False, epoch_reader 100 10)"
    by (simp add: update_def epoch_complete_def next_position_def next_stride_def
        passed_threshold_def epoch_reader_def word_sle_eq)
  have b: "position_valid (epoch_reader 100 10) \<and> \<not> at_new_epoch (epoch_reader 100 10)"
    using update_epoch_boundary [of "epoch_reader 90 9" rev]
    by (simp add: a) (simp add: epoch_reader_def word_sle_eq)
  have c: "fst (update rev (epoch_reader 100 10))
      \<and> m_current_pos (snd (update rev (epoch_reader 100 10))) = 0
      \<and> at_new_epoch (snd (update rev (epoch_reader 100 10)))
      \<and> m_shuffled_indices (snd (update rev (epoch_reader 100 10)))
          = rev (map word_of_nat [0..<105])"
    using update_epoch_boundary [of "epoch_reader 100 10" rev]
    by (simp add: Let_def split_beta epoch_reader_def word_sle_eq)
  show ?thesis using a b c by simp
qed

text \<open>Reading back what \<open>serialize\<close> wrote.\<close>

lemma read_ints_map: "read_ints (length ws) (map Int32 ws @ rest) = Some (ws, rest)"
  by (induction ws) auto

lemma read_vector_write: "read_vector (write_vector v @ rest) = Some (v, rest)"
  by (simp add: write_vector_def read_ints_map)

lemma length_cursor_fields: "length (cursor_fields r) = 11"
  by (simp add: cursor_fields_def)

lemma deserialize_serialize:
  "deserialize (serialize r) r0 =
     Some (r0\<lparr>m_shuffled_indices := m_shuffled_indices r,
               m_unused_indices := m_unused_indices r,
               m_current_pos := m_current_pos r, m_batch_stride := m_batch_stride r,
               m_base_offset := m_base_offset r, m_model_offset := m_model_offset r,
               m_sample_stride := m_sample_stride r,
               m_last_mini_batch_threshold := m_last_mini_batch_threshold r,
               m_last_mini_batch_size := m_last_mini_batch_size r,
               m_last_mini_batch_stride := m_last_mini_batch_stride r,
               m_current_mini_batch_idx := m_current_mini_batch_idx r,
               m_num_mini_batches_per_reader := m_num_mini_batches_per_reader r,
               m_num_iterations_per_epoch := m_num_iterations_per_epoch r\<rparr>)"
proof -
  have len: "length (cursor_fields r0) = length (cursor_fields r)"
    by (simp add: length_cursor_fields)
  have "read_ints (length (cursor_fields r0)) (map Int32 (cursor_fields r) @ [])
          = Some (cursor_fields r, [])"
    unfolding len by (rule read_ints_map)
  then show ?thesis
    by (simp add: deserialize_def serialize_def read_vector_write)
       (simp add: cursor_fields_def)
qed

text \<open>
  C7. Saving a reader's checkpoint and loading it into any other instance succeeds and
  reproduces \<open>shuffled_indices\<close>, \<open>unused_indices\<close> and every cursor field exactly.
\<close>

theorem checkpoint_round_trip:
  "\<exists>r' n. loadFromCheckpointShared (fst (saveToCheckpointShared p name r)) name fresh
             = Inr (r', n)
         \<and> m_shuffled_indices r' = m_shuffled_indices r
         \<and> m_unused_indices r' = m_unused_indices r
         \<and> cursor_fields r' = cursor_fields r"
  by (simp add: loadFromCheckpointShared_def saveToCheckpointShared_def
        deserialize_serialize cursor_fields_def)

section \<open>Properties of the gradient check\<close>

subsection \<open>State, perturbation and the check of one entry\<close>

lemma logged_fields [simp]:
  "get_execution_mode (logged cs ls m) = get_execution_mode m"
  "get_current_mini_batch_size (logged cs ls m) = get_current_mini_batch_size m"
  "am_world_master (logged cs ls m) = am_world_master m"
  "get_layers (logged cs ls m) = get_layers m"
  "get_metrics (logged cs ls m) = get_metrics m"
  "get_weights (logged cs ls m) = get_weights m"
  "calls (logged cs ls m) = calls m @ cs"
  "cout (logged cs ls m) = cout m @ ls"
  by (simp_all add: logged_def)

lemma frame_fields [simp]:
  "get_execution_mode (frame m) = get_execution_mode m"
  "get_current_mini_batch_size (frame m) = get_current_mini_batch_size m"
  "am_world_master (frame m) = am_world_master m"
  "get_layers (frame m) = get_layers m"
  "get_metrics (frame m) = get_metrics m"
  "get_weights (frame m) = get_weights m"
  "calls (frame m) = []"
  "cout (frame m) = []"
  by (simp_all add: frame_def)

lemma frame_logged [simp]: "frame (logged cs ls m) = frame m"
  by (simp add: frame_def logged_def)

lemma logged_logged [simp]: "logged c2 l2 (logged c1 l1 m) = logged (c1 @ c2) (l1 @ l2) m"
  by (simp add: logged_def)

lemma logged_Nil [simp]: "logged [] [] m = m"
  by (simp add: logged_def)

lemma call_all_logged: "call_all cs m = logged cs [] m"
  by (simp add: call_all_def logged_def)

lemma print_logged: "print ls m = logged [] ls m"
  by (simp add: print_def logged_def)

lemma other_layers_logged [simp]: "other_layers (logged cs ls m) = other_layers m"
  by (simp add: other_layers_def)

lemma input_layers_logged [simp]: "input_layers (logged cs ls m) = input_layers m"
  by (simp add: input_layers_def)

lemma eval_calls_logged [simp]: "eval_calls (logged cs ls m) = eval_calls m"
  by (simp add: eval_calls_def)

lemma compute_objective_function_eq:
  "compute_objective_function obj m = (obj (get_weights m), logged (eval_calls m) [] m)"
  by (simp add: compute_objective_function_def Let_def call_all_logged eval_calls_def)

lemma with_weights_fields [simp]:
  "get_execution_mode (with_weights ws m) = get_execution_mode m"
  "get_current_mini_batch_size (with_weights ws m) = get_current_mini_batch_size m"
  "am_world_master (with_weights ws m) = am_world_master m"
  "get_layers (with_weights ws m) = get_layers m"
  "get_metrics (with_weights ws m) = get_metrics m"
  "get_weights (with_weights ws m) = ws"
  "calls (with_weights ws m) = calls m"
  "cout (with_weights ws m) = cout m"
  by (simp_all add: with_weights_def)

lemma with_weights_simps [simp]:
  "with_weights ws (logged cs ls m) = logged cs ls (with_weights ws m)"
  "with_weights ws (with_weights ws' m) = with_weights ws m"
  "with_weights (get_weights m) m = m"
  "other_layers (with_weights ws m) = other_layers m"
  "eval_calls (with_weights ws m) = eval_calls m"
  by (simp_all add: with_weights_def logged_def other_layers_def eval_calls_def)

lemma set_value_at_eq:
  "set_value_at wi v row col m =
     logged [set_value_call wi v row col] [] (with_weights (perturbed (get_weights m) wi row col v) m)"
  by (simp add: set_value_at_def call_all_logged perturbed_def with_weights_def)

lemma set_value_twice [simp]:
  "set_value v row col (set_value u row col w) = set_value v row col w"
  by (simp add: set_value_def Let_def SetLocal_def)

lemma set_value_initial [simp]:
  "set_value (initial_weight (get_values w) row col) row col w = w"
  by (simp add: set_value_def Let_def SetLocal_def initial_weight_def GetLocal_def)

lemma perturbed_perturbed [simp]:
  "wi < length ws \<Longrightarrow> perturbed (perturbed ws wi row col u) wi row col v = perturbed ws wi row col v"
  by (simp add: perturbed_def)

lemma perturbed_initial [simp]:
  "perturbed ws wi row col (initial_weight (get_values (ws ! wi)) row col) = ws"
  by (simp add: perturbed_def)

lemma entry_calls_logged [simp]: "entry_calls (logged cs ls m) = entry_calls m"
  by (simp add: entry_calls_def fun_eq_iff)

lemma entry_calls_frame [simp]: "entry_calls (frame m) = entry_calls m"
  by (simp add: entry_calls_def fun_eq_iff eval_calls_def other_layers_def)

lemma check_entry_eq:
  assumes "wi < length (get_weights m)"
  shows "check_entry cb obj h expected wi row col m =
     (entry_outcome cb obj h expected (get_weights m) wi row col,
      logged (entry_calls m h wi row col)
             (entry_lines cb obj h expected (get_weights m) wi row col) m)"
proof -
  define ws where "ws = get_weights m"
  define w0 where "w0 = initial_weight (get_values (ws ! wi)) row col"
  have wi: "wi < length ws" using assms by (simp add: ws_def)
  have restore: "perturbed (perturbed ws wi row col v) wi row col w0 = ws" for v
    using wi by (simp add: w0_def)
  show ?thesis
    using wi
    unfolding check_entry_def compute_objective_function_eq set_value_at_eq
    by (simp add: Let_def ws_def[symmetric] w0_def[symmetric] restore
        entry_outcome_def entry_lines_def entry_fails_def entry_compared_def
        entry_details_def entry_error_def entry_numerical_def entry_analytical_def
        entry_weight_def entry_calls_def print_logged)
qed

subsection \<open>Loops\<close>

lemma for_each_trace:
  assumes "\<And>x s. x \<in> set xs \<Longrightarrow> frame s = F \<Longrightarrow> body x s = (out x, logged (c x) (l x) s)"
      and "frame s = F"
  shows "for_each xs body s =
     (first_raise out xs,
      logged (concat (map c (scanned out xs))) (concat (map l (scanned out xs))) s)"
  using assms
proof (induction xs arbitrary: s)
  case Nil
  then show ?case by simp
next
  case (Cons x xs)
  have step: "body x s = (out x, logged (c x) (l x) s)"
    using Cons.prems by simp
  show ?case
  proof (cases "out x")
    case Returned
    have "for_each xs body (logged (c x) (l x) s) =
      (first_raise out xs,
       logged (concat (map c (scanned out xs))) (concat (map l (scanned out xs)))
         (logged (c x) (l x) s))"
      using Cons.prems by (intro Cons.IH) simp_all
    then show ?thesis using step Returned by simp
  next
    case (Raised e)
    then show ?thesis using step by simp
  qed
qed

lemma first_raise_Returned_iff:
  "first_raise out xs = Returned \<longleftrightarrow> (\<forall>x \<in> set xs. out x = Returned)"
  by (induction xs) (auto split: outcome.splits)

lemma scanned_all:
  "first_raise out xs = Returned \<Longrightarrow> scanned out xs = xs"
  by (induction xs) (auto split: outcome.splits)

lemma scanned_raise:
  "first_raise out xs = Raised e \<Longrightarrow>
     \<exists>ys x. scanned out xs = ys @ [x] \<and> x \<in> set xs \<and> out x = Raised e"
proof (induction xs)
  case Nil
  then show ?case by simp
next
  case (Cons a xs)
  show ?case
  proof (cases "out a")
    case Returned
    with Cons obtain ys x where "scanned out xs = ys @ [x]" "x \<in> set xs" "out x = Raised e"
      by auto
    then have "scanned out (a # xs) = (a # ys) @ [x]" using Returned by simp
    then show ?thesis using \<open>x \<in> set xs\<close> \<open>out x = Raised e\<close> by (metis list.set_intros(2))
  next
    case (Raised e')
    then have "scanned out (a # xs) = [] @ [a]" "out a = Raised e" using Cons.prems by auto
    then show ?thesis by (metis list.set_intros(1))
  qed
qed

lemma sublist_trans: "sublist xs ys \<Longrightarrow> sublist ys zs \<Longrightarrow> sublist xs zs"
proof -
  assume "sublist xs ys" "sublist ys zs"
  then obtain p1 s1 p2 s2 where "ys = p1 @ xs @ s1" "zs = p2 @ ys @ s2"
    unfolding sublist_def by blast
  then have "zs = (p2 @ p1) @ xs @ (s1 @ s2)" by simp
  then show ?thesis unfolding sublist_def by blast
qed

lemma sublist_concat_map: "x \<in> set xs \<Longrightarrow> sublist (f x) (concat (map f xs))"
proof (induction xs)
  case Nil
  then show ?case by simp
next
  case (Cons a xs)
  show ?case
  proof (cases "x = a")
    case True
    then show ?thesis by (simp add: sublist_append_rightI)
  next
    case False
    then have "sublist (f x) (concat (map f xs))" using Cons by simp
    moreover have "sublist (concat (map f xs)) (f a @ concat (map f xs))"
      by (rule sublist_append_leftI)
    ultimately have "sublist (f x) (f a @ concat (map f xs))"
      by (rule sublist_trans)
    then show ?thesis by simp
  qed
qed

lemma for_each_run:
  assumes "\<And>x s. x \<in> set xs \<Longrightarrow> frame s = F \<Longrightarrow> body x s = run (t x) s"
      and "frame s = F"
  shows "for_each xs body s = run (seq_traces t xs) s"
  unfolding run_def seq_traces_def fst_conv snd_conv
  by (rule for_each_trace [where F = F]) (use assms in \<open>simp_all add: run_def\<close>)

lemma frame_eq_fields:
  assumes "frame s = frame m"
  shows "get_weights s = get_weights m" "am_world_master s = am_world_master m"
    "get_layers s = get_layers m" "get_execution_mode s = get_execution_mode m"
    "get_metrics s = get_metrics m"
    "get_current_mini_batch_size s = get_current_mini_batch_size m"
  using arg_cong [OF assms, of get_weights] arg_cong [OF assms, of am_world_master]
    arg_cong [OF assms, of get_layers] arg_cong [OF assms, of get_execution_mode]
    arg_cong [OF assms, of get_metrics] arg_cong [OF assms, of get_current_mini_batch_size]
  by simp_all

lemma entry_trace_frame:
  assumes "frame s = frame m"
  shows "entry_trace cb obj h expected s = entry_trace cb obj h expected m"
proof -
  have "entry_calls s = entry_calls m"
    using arg_cong [OF assms, of entry_calls] by simp
  then show ?thesis
    by (simp add: entry_trace_def fun_eq_iff frame_eq_fields(1) [OF assms])
qed

lemma check_entry_run:
  assumes "wi < length (get_weights m)" "frame s = frame m"
  shows "check_entry cb obj h expected wi row col s =
           run (entry_trace cb obj h expected m wi col row) s"
proof -
  have "wi < length (get_weights s)" using assms(1) by (simp add: frame_eq_fields(1) [OF assms(2)])
  then have "check_entry cb obj h expected wi row col s =
           run (entry_trace cb obj h expected s wi col row) s"
    by (simp add: check_entry_eq run_def entry_trace_def)
  then show ?thesis by (simp only: entry_trace_frame [OF assms(2)])
qed

lemma column_run:
  assumes "wi < length (get_weights m)" "frame s = frame m"
  shows "for_each [0..<Height (get_values (get_weights m ! wi))]
           (\<lambda>row. check_entry cb obj h expected wi row col) s =
         run (column_trace cb obj h expected m wi col) s"
  unfolding column_trace_def
  by (rule for_each_run [where F = "frame m"]) (use assms in \<open>simp_all add: check_entry_run\<close>)

lemma check_weights_run:
  assumes "wi < length (get_weights m)" "frame s = frame m"
  shows "check_weights cb obj h expected wi s = run (weights_trace cb obj h expected m wi) s"
proof (cases "get_optimizer (get_weights m ! wi) = None")
  case True
  then show ?thesis
    using assms(1) by (simp add: check_weights_def weights_trace_def run_def frame_eq_fields [OF assms(2)])
next
  case False
  then obtain opt where opt: "get_optimizer (get_weights m ! wi) = Some opt"
    by auto
  let ?A = "get_values (get_weights m ! wi)"
  let ?pre = "if am_world_master m then [Checking (get_name (get_weights m ! wi))] else []"
  let ?s1 = "logged [] ?pre s"
  have s1: "frame ?s1 = frame m" using assms by simp
  have loop: "for_each [0..<Width ?A]
      (\<lambda>col. for_each [0..<Height ?A] (\<lambda>row. check_entry cb obj h expected wi row col)) ?s1
    = run (seq_traces (column_trace cb obj h expected m wi) [0..<Width ?A]) ?s1"
    by (rule for_each_run [where F = "frame m"]) (use assms s1 in \<open>simp_all add: column_run\<close>)
  have "check_weights cb obj h expected wi s =
    for_each [0..<Width ?A]
      (\<lambda>col. for_each [0..<Height ?A] (\<lambda>row. check_entry cb obj h expected wi row col)) ?s1"
    using assms(1) by (simp add: opt check_weights_def frame_eq_fields [OF assms(2)] print_logged Let_def)
  then show ?thesis
    by (simp add: opt loop weights_trace_def run_def Let_def)
qed

lemma scan_run:
  assumes "frame s = frame m"
  shows "for_each [0..<length (get_weights m)] (check_weights cb obj h expected) s =
         run (scan_trace cb obj h expected m) s"
  unfolding scan_trace_def
  by (rule for_each_run [where F = "frame m"]) (use assms in \<open>simp_all add: check_weights_run\<close>)

subsection \<open>The callback as a trace\<close>

lemma reset_statistics_eq: "reset_statistics m = logged (reset_calls m) [] m"
  by (simp add: reset_statistics_def reset_calls_def call_all_logged Let_def)

lemma optimized_weights_logged [simp]: "optimized_weights (logged cs ls m) = optimized_weights m"
  by (simp add: optimized_weights_def)

lemma reset_calls_logged [simp]: "reset_calls (logged cs ls m) = reset_calls m"
  by (simp add: reset_calls_def)

lemma scan_run_logged:
  "for_each [0..<length (get_weights m)] (check_weights cb obj h expected) (logged cs ls m) =
     run (scan_trace cb obj h expected m) (logged cs ls m)"
  by (rule scan_run) simp


lemma do_check_gradients_eq:
  assumes "check_needed cb m"
  shows "do_check_gradients cb eps obj m =
     (let objective = obj (get_weights m);
          t = scan_trace cb obj (step_size eps cb objective) (expected_error eps cb objective) m
      in (fst t,
          logged (prelude_calls m @ fst (snd t)
                  @ (if fst t = Returned then cleanup_calls m else []))
                 ((if am_world_master m then header_lines eps cb objective else [])
                  @ snd (snd t)
                  @ (if fst t = Returned \<and> am_world_master m then [Rule] else [])) m))"
proof -
  have "(m_modes cb \<noteq> {} \<and> get_execution_mode m \<notin> m_modes cb) = False"
    using assms by (auto simp: check_needed_def)
  then have start: "do_check_gradients cb eps obj m =
     (let mode = get_execution_mode m; m1 = reset_statistics m;
          m2 = call_all (map clear_gradient (optimized_weights m1)) m1;
          m3 = call_all (map forward_prop (input_layers m2)) m2;
          (objective, m4) = compute_objective_function obj m3;
          h = step_size eps cb objective;
          expected = expected_error eps cb objective;
          m5 = call_all (differentiate # compute_weight_regularization
                         # map back_prop (rev [0..<length (get_layers m4)])) m4;
          m6 = (if am_world_master m5
                then print [Rule, GradientChecking, ObjectiveFunctionValue objective,
                            StepSize h, ExpectedGradientError expected] m5
                else m5)
      in case for_each [0..<length (get_weights m6)]
                (check_weights cb obj h expected) m6 of
           (Raised e, m7) \<Rightarrow> (Raised e, m7)
         | (Returned, m7) \<Rightarrow>
             (let m8 = (if am_world_master m7 then print [Rule] m7 else m7);
                  m9 = call_all (map (\<lambda>i. set_initial_position i mode) (input_layers m8)) m8
              in (Returned, reset_statistics m9)))"
    unfolding do_check_gradients_def by (simp only: if_False Let_def)
  show ?thesis
    unfolding start compute_objective_function_eq reset_statistics_eq
      call_all_logged print_logged
    by (cases "fst (scan_trace cb obj (step_size eps cb (obj (get_weights m)))
                 (expected_error eps cb (obj (get_weights m))) m)")
       (simp_all add: Let_def scan_run_logged run_def prelude_calls_def cleanup_calls_def
          header_lines_def)
qed

subsection \<open>Complete and interrupted scans\<close>

lemma seq_Returned_each:
  "fst (seq_traces t xs) = Returned \<Longrightarrow> x \<in> set xs \<Longrightarrow> fst (t x) = Returned"
  by (simp add: seq_traces_def first_raise_Returned_iff)

lemma seq_Returned_calls:
  "fst (seq_traces t xs) = Returned \<Longrightarrow> x \<in> set xs \<Longrightarrow>
     sublist (fst (snd (t x))) (fst (snd (seq_traces t xs)))"
  using sublist_concat_map [of x xs "\<lambda>x. fst (snd (t x))"]
  by (simp add: seq_traces_def scanned_all)

lemma seq_Returned_lines:
  "fst (seq_traces t xs) = Returned \<Longrightarrow> x \<in> set xs \<Longrightarrow>
     sublist (snd (snd (t x))) (snd (snd (seq_traces t xs)))"
  using sublist_concat_map [of x xs "\<lambda>x. snd (snd (t x))"]
  by (simp add: seq_traces_def scanned_all)

lemma seq_Raised:
  assumes "fst (seq_traces t xs) = Raised e"
  shows "\<exists>x \<in> set xs. fst (t x) = Raised e
           \<and> suffix (fst (snd (t x))) (fst (snd (seq_traces t xs)))
           \<and> suffix (snd (snd (t x))) (snd (snd (seq_traces t xs)))"
proof -
  have "first_raise (\<lambda>x. fst (t x)) xs = Raised e"
    using assms by (simp add: seq_traces_def)
  then obtain ys x where sc: "scanned (\<lambda>x. fst (t x)) xs = ys @ [x]"
      and x: "x \<in> set xs" "fst (t x) = Raised e"
    using scanned_raise [of "\<lambda>x. fst (t x)" xs e] by blast
  have "suffix (fst (snd (t x))) (fst (snd (seq_traces t xs)))"
    by (simp add: seq_traces_def sc suffix_def)
  moreover have "suffix (snd (snd (t x))) (snd (snd (seq_traces t xs)))"
    by (simp add: seq_traces_def sc suffix_def)
  ultimately show ?thesis using x by blast
qed


lemma suffix_trans: "suffix xs ys \<Longrightarrow> suffix ys zs \<Longrightarrow> suffix xs zs"
  by (auto simp: suffix_def)

lemma weights_trace_opt:
  assumes "get_optimizer (get_weights m ! wi) \<noteq> None"
  shows "fst (weights_trace cb obj h expected m wi) =
           fst (seq_traces (column_trace cb obj h expected m wi)
                  [0..<Width (get_values (get_weights m ! wi))])"
    and "fst (snd (weights_trace cb obj h expected m wi)) =
           fst (snd (seq_traces (column_trace cb obj h expected m wi)
                  [0..<Width (get_values (get_weights m ! wi))]))"
    and "snd (snd (weights_trace cb obj h expected m wi)) =
           (if am_world_master m then [Checking (get_name (get_weights m ! wi))] else [])
           @ snd (snd (seq_traces (column_trace cb obj h expected m wi)
                  [0..<Width (get_values (get_weights m ! wi))]))"
  using assms by (auto simp: weights_trace_def Let_def)

lemma scan_Returned:
  assumes ret: "fst (scan_trace cb obj h expected m) = Returned"
      and entry: "checked_entry m wi row col"
  shows "entry_outcome cb obj h expected (get_weights m) wi row col = Returned"
    and "sublist (entry_calls m h wi row col) (fst (snd (scan_trace cb obj h expected m)))"
    and "sublist (entry_lines cb obj h expected (get_weights m) wi row col)
           (snd (snd (scan_trace cb obj h expected m)))"
proof -
  let ?A = "get_values (get_weights m ! wi)"
  let ?W = "weights_trace cb obj h expected m"
  let ?C = "column_trace cb obj h expected m wi"
  let ?E = "entry_trace cb obj h expected m wi col"
  have wi: "wi \<in> set [0..<length (get_weights m)]"
    and opt: "get_optimizer (get_weights m ! wi) \<noteq> None"
    and col: "col \<in> set [0..<Width ?A]" and row: "row \<in> set [0..<Height ?A]"
    using entry by (simp_all add: checked_entry_def)
  have w_ret: "fst (?W wi) = Returned"
    using ret wi unfolding scan_trace_def by (rule seq_Returned_each)
  then have cols_ret: "fst (seq_traces ?C [0..<Width ?A]) = Returned"
    by (simp add: weights_trace_opt(1) [OF opt])
  have c_ret: "fst (?C col) = Returned"
    using cols_ret col by (rule seq_Returned_each)
  then have rows_ret: "fst (seq_traces ?E [0..<Height ?A]) = Returned"
    by (simp add: column_trace_def)
  have "fst (?E row) = Returned"
    using rows_ret row by (rule seq_Returned_each)
  then show "entry_outcome cb obj h expected (get_weights m) wi row col = Returned"
    by (simp add: entry_trace_def)
  have "sublist (fst (snd (?E row))) (fst (snd (?C col)))"
    unfolding column_trace_def using rows_ret row by (rule seq_Returned_calls)
  moreover have "sublist (fst (snd (?C col))) (fst (snd (?W wi)))"
    unfolding weights_trace_opt(2) [OF opt] using cols_ret col by (rule seq_Returned_calls)
  moreover have "sublist (fst (snd (?W wi))) (fst (snd (scan_trace cb obj h expected m)))"
    unfolding scan_trace_def using ret [unfolded scan_trace_def] wi by (rule seq_Returned_calls)
  ultimately have "sublist (fst (snd (?E row))) (fst (snd (scan_trace cb obj h expected m)))"
    by (blast intro: sublist_trans)
  then show "sublist (entry_calls m h wi row col) (fst (snd (scan_trace cb obj h expected m)))"
    by (simp add: entry_trace_def)
  have "sublist (snd (snd (?E row))) (snd (snd (?C col)))"
    unfolding column_trace_def using rows_ret row by (rule seq_Returned_lines)
  moreover have "sublist (snd (snd (?C col))) (snd (snd (seq_traces ?C [0..<Width ?A])))"
    using cols_ret col by (rule seq_Returned_lines)
  moreover have "sublist (snd (snd (seq_traces ?C [0..<Width ?A]))) (snd (snd (?W wi)))"
    unfolding weights_trace_opt(3) [OF opt] by (rule sublist_append_leftI)
  moreover have "sublist (snd (snd (?W wi))) (snd (snd (scan_trace cb obj h expected m)))"
    unfolding scan_trace_def using ret [unfolded scan_trace_def] wi by (rule seq_Returned_lines)
  ultimately have "sublist (snd (snd (?E row))) (snd (snd (scan_trace cb obj h expected m)))"
    by (blast intro: sublist_trans)
  then show "sublist (entry_lines cb obj h expected (get_weights m) wi row col)
           (snd (snd (scan_trace cb obj h expected m)))"
    by (simp add: entry_trace_def)
qed

lemma scan_Raised:
  assumes "fst (scan_trace cb obj h expected m) = Raised e"
  shows "\<exists>wi row col. checked_entry m wi row col
           \<and> entry_outcome cb obj h expected (get_weights m) wi row col = Raised e
           \<and> suffix (entry_calls m h wi row col) (fst (snd (scan_trace cb obj h expected m)))
           \<and> suffix (entry_lines cb obj h expected (get_weights m) wi row col)
                (snd (snd (scan_trace cb obj h expected m)))"
proof -
  let ?W = "weights_trace cb obj h expected m"
  obtain wi where wi: "wi \<in> set [0..<length (get_weights m)]"
      and w_raise: "fst (?W wi) = Raised e"
      and w_calls: "suffix (fst (snd (?W wi))) (fst (snd (scan_trace cb obj h expected m)))"
      and w_lines: "suffix (snd (snd (?W wi))) (snd (snd (scan_trace cb obj h expected m)))"
    using seq_Raised [OF assms [unfolded scan_trace_def]] unfolding scan_trace_def by blast
  let ?A = "get_values (get_weights m ! wi)"
  let ?C = "column_trace cb obj h expected m wi"
  have opt: "get_optimizer (get_weights m ! wi) \<noteq> None"
    using w_raise by (cases "get_optimizer (get_weights m ! wi)") (simp_all add: weights_trace_def)
  have cols_raise: "fst (seq_traces ?C [0..<Width ?A]) = Raised e"
    using w_raise by (simp add: weights_trace_opt(1) [OF opt])
  obtain col where col: "col \<in> set [0..<Width ?A]"
      and c_raise: "fst (?C col) = Raised e"
      and c_calls: "suffix (fst (snd (?C col))) (fst (snd (seq_traces ?C [0..<Width ?A])))"
      and c_lines: "suffix (snd (snd (?C col))) (snd (snd (seq_traces ?C [0..<Width ?A])))"
    using seq_Raised [OF cols_raise] by blast
  let ?E = "entry_trace cb obj h expected m wi col"
  have rows_raise: "fst (seq_traces ?E [0..<Height ?A]) = Raised e"
    using c_raise by (simp add: column_trace_def)
  obtain row where row: "row \<in> set [0..<Height ?A]"
      and e_raise: "fst (?E row) = Raised e"
      and e_calls: "suffix (fst (snd (?E row))) (fst (snd (?C col)))"
      and e_lines: "suffix (snd (snd (?E row))) (snd (snd (?C col)))"
    using seq_Raised [OF rows_raise] unfolding column_trace_def by blast
  have "checked_entry m wi row col"
    using wi opt col row by (simp add: checked_entry_def)
  moreover have "entry_outcome cb obj h expected (get_weights m) wi row col = Raised e"
    using e_raise by (simp add: entry_trace_def)
  moreover have "suffix (fst (snd (?E row))) (fst (snd (scan_trace cb obj h expected m)))"
    using e_calls c_calls w_calls unfolding weights_trace_opt(2) [OF opt]
    by (blast intro: suffix_trans)
  moreover have "suffix (snd (snd (seq_traces ?C [0..<Width ?A]))) (snd (snd (?W wi)))"
    unfolding weights_trace_opt(3) [OF opt] by (simp add: suffix_def)
  then have "suffix (snd (snd (?E row))) (snd (snd (scan_trace cb obj h expected m)))"
    using e_lines c_lines w_lines by (blast intro: suffix_trans)
  ultimately show ?thesis
    by (auto simp: entry_trace_def)
qed


lemma seq_traces_Nil [simp]: "seq_traces t [] = (Returned, [], [])"
  by (simp add: seq_traces_def)

lemma powr_0_9_gt: 
  fixes a :: real assumes "0 < a" "a < 1" shows "a < a powr (9 / 10)"
proof -
  have "a powr 1 < a powr (9 / 10)"
    using assms by (intro powr_less_mono') simp_all
  then show ?thesis using assms by simp
qed

lemma expected_error_differs:
  "expected_error float_epsilon fixed_step (Fin 1)
     \<noteq> claimed_expected_error float_epsilon (Fin 1) (Fin (1 / 1024))"
proof -
  define a :: real where "a = 1 / 8388608"
  define c :: real where "c = (1 / 1024) ^ 4 / 18"
  have a: "0 < a" "a < 1" by (simp_all add: a_def)
  have c: "0 < c" by (simp add: c_def)
  have lt: "a * 1024 + c < a powr (9 / 10) * 1024 + c"
    using powr_0_9_gt [OF a] by simp
  have pos: "0 \<le> a * 1024 + c" using a c by simp
  have "(a * 1024 + c) powr (9 / 10) < (a powr (9 / 10) * 1024 + c) powr (9 / 10)"
    using pos lt by (intro powr_less_mono2) simp_all
  then have ne: "(a powr (9 / 10) * 1024 + c) powr (9 / 10) \<noteq> (a * 1024 + c) powr (9 / 10)"
    by simp
  have step: "step_size e fixed_step (Fin 1) = Fin (1 / 1024)" for e
    by (simp add: step_size_def fixed_step_def dt_greater_def)
  have n1: "\<not> a powr (9 / 10) * 1024 + c < 0"
    using c powr_ge_zero [of a "9 / 10"] by (simp add: not_less add_nonneg_nonneg)
  have n2: "\<not> a * 1024 + c < 0" using pos by simp
  have lhs: "expected_error float_epsilon fixed_step (Fin 1)
      = Fin ((a powr (9 / 10) * 1024 + c) powr (9 / 10))"
    using n1 a by (simp add: expected_error_def step epsilon_def float_epsilon_def
        a_def [symmetric] c_def [symmetric])
  have rhs: "claimed_expected_error float_epsilon (Fin 1) (Fin (1 / 1024))
      = Fin ((a * 1024 + c) powr (9 / 10))"
    using n2 a by (simp add: claimed_expected_error_def float_epsilon_def
        a_def [symmetric] c_def [symmetric])
  show ?thesis unfolding lhs rhs using ne by simp
qed


lemma sublist_in_logged:
  "sublist xs c \<Longrightarrow> sublist xs (a @ p @ c @ q)"
proof -
  assume "sublist xs c"
  then obtain u v where "c = u @ xs @ v" unfolding sublist_def by blast
  then have "a @ p @ c @ q = (a @ p @ u) @ xs @ (v @ q)" by simp
  then show ?thesis unfolding sublist_def by blast
qed



lemma do_check_gradients_Returned:
  assumes needed: "check_needed cb m"
      and ret: "fst (do_check_gradients cb eps obj m) = Returned"
      and entry: "checked_entry m wi row col"
  shows "sublist (entry_calls m (step_size eps cb (obj (get_weights m))) wi row col)
           (calls (snd (do_check_gradients cb eps obj m)))"
    and "sublist (entry_lines cb obj (step_size eps cb (obj (get_weights m)))
                    (expected_error eps cb (obj (get_weights m))) (get_weights m) wi row col)
           (cout (snd (do_check_gradients cb eps obj m)))"
    and "entry_outcome cb obj (step_size eps cb (obj (get_weights m)))
           (expected_error eps cb (obj (get_weights m))) (get_weights m) wi row col = Returned"
proof -
  let ?h = "step_size eps cb (obj (get_weights m))"
  let ?e = "expected_error eps cb (obj (get_weights m))"
  have scan: "fst (scan_trace cb obj ?h ?e m) = Returned"
    using ret by (simp add: do_check_gradients_eq [OF needed] Let_def)
  show "sublist (entry_calls m ?h wi row col) (calls (snd (do_check_gradients cb eps obj m)))"
    using scan_Returned(2) [OF scan entry]
    by (simp add: do_check_gradients_eq [OF needed] Let_def sublist_in_logged
        del: append_assoc)
  show "sublist (entry_lines cb obj ?h ?e (get_weights m) wi row col)
          (cout (snd (do_check_gradients cb eps obj m)))"
    using scan_Returned(3) [OF scan entry]
    by (simp add: do_check_gradients_eq [OF needed] Let_def sublist_in_logged
        del: append_assoc)
  show "entry_outcome cb obj ?h ?e (get_weights m) wi row col = Returned"
    by (rule scan_Returned(1) [OF scan entry])
qed

lemma do_check_gradients_Raised:
  assumes needed: "check_needed cb m"
      and raised: "fst (do_check_gradients cb eps obj m) = Raised e"
  shows "\<exists>wi row col. checked_entry m wi row col
     \<and> entry_outcome cb obj (step_size eps cb (obj (get_weights m)))
           (expected_error eps cb (obj (get_weights m))) (get_weights m) wi row col = Raised e
     \<and> suffix (entry_calls m (step_size eps cb (obj (get_weights m))) wi row col)
           (calls (snd (do_check_gradients cb eps obj m)))
     \<and> suffix (entry_lines cb obj (step_size eps cb (obj (get_weights m)))
                    (expected_error eps cb (obj (get_weights m))) (get_weights m) wi row col)
           (cout (snd (do_check_gradients cb eps obj m)))"
proof -
  let ?h = "step_size eps cb (obj (get_weights m))"
  let ?e = "expected_error eps cb (obj (get_weights m))"
  have scan: "fst (scan_trace cb obj ?h ?e m) = Raised e"
    using raised by (simp add: do_check_gradients_eq [OF needed] Let_def)
  obtain wi row col where entry: "checked_entry m wi row col"
      and out: "entry_outcome cb obj ?h ?e (get_weights m) wi row col = Raised e"
      and c: "suffix (entry_calls m ?h wi row col) (fst (snd (scan_trace cb obj ?h ?e m)))"
      and l: "suffix (entry_lines cb obj ?h ?e (get_weights m) wi row col)
                (snd (snd (scan_trace cb obj ?h ?e m)))"
    using scan_Raised [OF scan] by blast
  have "suffix (entry_calls m ?h wi row col) (calls (snd (do_check_gradients cb eps obj m)))"
    using c by (simp add: do_check_gradients_eq [OF needed] Let_def scan suffix_appendI)
  moreover have "suffix (entry_lines cb obj ?h ?e (get_weights m) wi row col)
                  (cout (snd (do_check_gradients cb eps obj m)))"
    using l by (simp add: do_check_gradients_eq [OF needed] Let_def scan suffix_appendI)
  ultimately show ?thesis using entry out by blast
qed


subsection \<open>Runs on the concrete inputs\<close>

lemma one_weight_entry: "checked_entry (one_weight g) 0 0 0"
  by (simp add: checked_entry_def one_weight_def scalar_matrix_def)





lemma strict_step_size: "step_size e strict f0 = Fin (1 / 1024)"
  by (simp add: step_size_def strict_def dt_greater_def)



subsection \<open>The scan as one list of entries\<close>

lemma first_raise_map: "first_raise out (map f xs) = first_raise (\<lambda>x. out (f x)) xs"
  by (induction xs) (auto split: outcome.splits)

lemma scanned_map: "scanned out (map f xs) = map f (scanned (\<lambda>x. out (f x)) xs)"
  by (induction xs) (auto split: outcome.splits)

lemma first_raise_append:
  "first_raise out (as @ bs) =
     (case first_raise out as of Returned \<Rightarrow> first_raise out bs | Raised e \<Rightarrow> Raised e)"
  by (induction as) (auto split: outcome.splits)

lemma scanned_append:
  "scanned out (as @ bs) =
     (case first_raise out as of Returned \<Rightarrow> as @ scanned out bs | Raised e \<Rightarrow> scanned out as)"
  by (induction as) (auto split: outcome.splits)

lemma flat_Cons: "flat ys (x # xs) = map (Pair x) (ys x) @ flat ys xs"
  by (simp add: flat_def)

lemma flat_Nil: "flat ys [] = []"
  by (simp add: flat_def)

lemma first_raise_flat:
  "first_raise (\<lambda>x. first_raise (\<lambda>y. out (x, y)) (ys x)) xs = first_raise out (flat ys xs)"
  by (induction xs)
     (auto simp: flat_Cons flat_Nil first_raise_append first_raise_map split: outcome.splits)

lemma scanned_flat:
  "concat (map (\<lambda>x. concat (map (\<lambda>y. c (x, y)) (scanned (\<lambda>y. out (x, y)) (ys x))))
            (scanned (\<lambda>x. first_raise (\<lambda>y. out (x, y)) (ys x)) xs))
   = concat (map c (scanned out (flat ys xs)))"
proof (induction xs)
  case Nil
  then show ?case by (simp add: flat_Nil)
next
  case (Cons x xs)
  show ?case
  proof (cases "first_raise (\<lambda>y. out (x, y)) (ys x)")
    case Returned
    then have all: "scanned (\<lambda>y. out (x, y)) (ys x) = ys x" by (rule scanned_all)
    show ?thesis
      using Returned Cons.IH
      by (simp add: flat_Cons scanned_append first_raise_map all map_concat comp_def)
  next
    case (Raised e)
    then show ?thesis
      by (simp add: flat_Cons scanned_append first_raise_map scanned_map comp_def)
  qed
qed

lemma scanned_flat_mem:
  "p \<in> set (scanned out (flat ys xs)) \<Longrightarrow>
     fst p \<in> set (scanned (\<lambda>x. first_raise (\<lambda>y. out (x, y)) (ys x)) xs)
     \<and> snd p \<in> set (scanned (\<lambda>y. out (fst p, y)) (ys (fst p)))"
proof (induction xs)
  case Nil
  then show ?case by (simp add: flat_Nil)
next
  case (Cons x xs)
  show ?case
  proof (cases "first_raise (\<lambda>y. out (x, y)) (ys x)")
    case Returned
    then have all: "scanned (\<lambda>y. out (x, y)) (ys x) = ys x" by (rule scanned_all)
    show ?thesis
      using Returned Cons
      by (auto simp: flat_Cons scanned_append first_raise_map all)
  next
    case (Raised e)
    then show ?thesis
      using Cons.prems
      by (auto simp: flat_Cons scanned_append first_raise_map scanned_map)
  qed
qed

lemma scanned_up_to_first: "scanned out xs = up_to_first (\<lambda>x. out x \<noteq> Returned) xs"
  by (induction xs) (auto simp: up_to_first_def split: outcome.splits)

lemma first_raise_cases:
  assumes "\<And>x. x \<in> set xs \<Longrightarrow> out x = Returned \<or> out x = Raised e"
  shows "first_raise out xs = (if \<exists>x \<in> set xs. out x \<noteq> Returned then Raised e else Returned)"
  using assms
proof (induction xs)
  case Nil
  then show ?case by simp
next
  case (Cons a xs)
  have a: "out a = Returned \<or> out a = Raised e" using Cons.prems by simp
  have IH: "first_raise out xs =
      (if \<exists>x \<in> set xs. out x \<noteq> Returned then Raised e else Returned)"
    using Cons.prems by (intro Cons.IH) simp
  show ?case using a IH by auto
qed

lemma scanned_subset: "set (scanned out xs) \<subseteq> set xs"
  by (induction xs) (auto split: outcome.splits)

lemma weights_trace_flat:
  fixes cb :: "'mode check_gradients" and m :: "'mode model"
    and obj :: "weights list \<Rightarrow> DataType" and h expected :: DataType
  defines "EO \<equiv> (\<lambda>(wi, col, row). entry_outcome cb obj h expected (get_weights m) wi row col)"
      and "EC \<equiv> (\<lambda>(wi, col, row). entry_calls m h wi row col)"
  shows "fst (weights_trace cb obj h expected m wi)
           = first_raise (\<lambda>p. EO (wi, p)) (weights_entries m wi)"
    and "fst (snd (weights_trace cb obj h expected m wi))
           = concat (map (\<lambda>p. EC (wi, p)) (scanned (\<lambda>p. EO (wi, p)) (weights_entries m wi)))"
proof -
  let ?w = "get_weights m ! wi"
  let ?rows = "\<lambda>col::nat. [0..<Height (get_values ?w)]"
  let ?cols = "[0..<Width (get_values ?w)]"
  have out: "fst (column_trace cb obj h expected m wi col)
      = first_raise (\<lambda>row. EO (wi, col, row)) (?rows col)" for col
    by (simp add: column_trace_def seq_traces_def entry_trace_def EO_def)
  have cs: "fst (snd (column_trace cb obj h expected m wi col))
      = concat (map (\<lambda>row. EC (wi, col, row)) (scanned (\<lambda>row. EO (wi, col, row)) (?rows col)))"
    for col
    by (simp add: column_trace_def seq_traces_def entry_trace_def EO_def EC_def)
  show "fst (weights_trace cb obj h expected m wi)
           = first_raise (\<lambda>p. EO (wi, p)) (weights_entries m wi)"
  proof (cases "get_optimizer ?w")
    case None
    then show ?thesis by (simp add: weights_trace_def weights_entries_def flat_Nil)
  next
    case (Some opt)
    then show ?thesis
      using first_raise_flat [of "\<lambda>p. EO (wi, p)" ?rows ?cols]
      by (simp add: weights_trace_def weights_entries_def Let_def seq_traces_def out)
  qed
  show "fst (snd (weights_trace cb obj h expected m wi))
           = concat (map (\<lambda>p. EC (wi, p)) (scanned (\<lambda>p. EO (wi, p)) (weights_entries m wi)))"
  proof (cases "get_optimizer ?w")
    case None
    then show ?thesis by (simp add: weights_trace_def weights_entries_def flat_Nil)
  next
    case (Some opt)
    then show ?thesis
      using scanned_flat [of "\<lambda>p. EC (wi, p)" "\<lambda>p. EO (wi, p)" ?rows ?cols]
      by (simp add: weights_trace_def weights_entries_def Let_def seq_traces_def out cs)
  qed
qed

lemma scan_trace_flat:
  fixes cb :: "'mode check_gradients" and m :: "'mode model"
    and obj :: "weights list \<Rightarrow> DataType" and h expected :: DataType
  defines "EO \<equiv> (\<lambda>(wi, col, row). entry_outcome cb obj h expected (get_weights m) wi row col)"
      and "EC \<equiv> (\<lambda>(wi, col, row). entry_calls m h wi row col)"
  shows "fst (scan_trace cb obj h expected m) = first_raise EO (scan_order m)"
    and "fst (snd (scan_trace cb obj h expected m))
           = concat (map EC (scanned EO (scan_order m)))"
proof -
  let ?n = "[0..<length (get_weights m)]"
  note w = weights_trace_flat [of cb obj h expected m, folded EO_def EC_def]
  show "fst (scan_trace cb obj h expected m) = first_raise EO (scan_order m)"
    using first_raise_flat [of EO "weights_entries m" ?n]
    by (simp add: scan_trace_def seq_traces_def scan_order_def w)
  show "fst (snd (scan_trace cb obj h expected m))
           = concat (map EC (scanned EO (scan_order m)))"
    using scanned_flat [of EC EO "weights_entries m" ?n]
    by (simp add: scan_trace_def seq_traces_def scan_order_def w)
qed

lemma set_flat: "(x, y) \<in> set (flat ys xs) \<longleftrightarrow> x \<in> set xs \<and> y \<in> set (ys x)"
  by (induction xs) (auto simp: flat_Cons flat_Nil)

lemma scan_order_set:
  "(wi, col, row) \<in> set (scan_order m) \<longleftrightarrow> checked_entry m wi row col"
proof -
  have inner: "(col, row) \<in> set (weights_entries m wi) \<longleftrightarrow>
      get_optimizer (get_weights m ! wi) \<noteq> None
      \<and> row < Height (get_values (get_weights m ! wi))
      \<and> col < Width (get_values (get_weights m ! wi))"
    by (cases "get_optimizer (get_weights m ! wi)")
       (auto simp: weights_entries_def set_flat Let_def)
  have "(wi, col, row) \<in> set (scan_order m) \<longleftrightarrow>
      wi < length (get_weights m) \<and> (col, row) \<in> set (weights_entries m wi)"
    by (simp add: scan_order_def set_flat)
  then show ?thesis by (simp add: inner checked_entry_def)
qed

lemma scan_trace_lines:
  fixes cb :: "'mode check_gradients" and m :: "'mode model"
    and obj :: "weights list \<Rightarrow> DataType" and h expected :: DataType
  defines "EO \<equiv> (\<lambda>(wi, col, row). entry_outcome cb obj h expected (get_weights m) wi row col)"
  assumes mem: "(wi, col, row) \<in> set (scanned EO (scan_order m))"
  shows "sublist (entry_lines cb obj h expected (get_weights m) wi row col)
           (snd (snd (scan_trace cb obj h expected m)))"
proof -
  let ?w = "get_weights m ! wi"
  let ?rows = "\<lambda>col::nat. [0..<Height (get_values ?w)]"
  let ?cols = "[0..<Width (get_values ?w)]"
  let ?n = "[0..<length (get_weights m)]"
  let ?W = "weights_trace cb obj h expected m"
  let ?C = "column_trace cb obj h expected m wi"
  let ?E = "entry_trace cb obj h expected m wi col"
  note w = weights_trace_flat [of cb obj h expected m, folded EO_def]
  have 1: "wi \<in> set (scanned (\<lambda>wi. fst (?W wi)) ?n)"
    and 2: "(col, row) \<in> set (scanned (\<lambda>p. EO (wi, p)) (weights_entries m wi))"
    using scanned_flat_mem [OF mem [unfolded scan_order_def]] by (simp_all add: w(1))
  have in_we: "(col, row) \<in> set (weights_entries m wi)"
    using 2 scanned_subset [of "\<lambda>p. EO (wi, p)" "weights_entries m wi"] by (rule subsetD [rotated])
  have opt: "get_optimizer ?w \<noteq> None"
  proof
    assume "get_optimizer ?w = None"
    then have "weights_entries m wi = []" by (simp add: weights_entries_def)
    then show False using in_we by simp
  qed
  then obtain opt' where "get_optimizer ?w = Some opt'" by auto
  then have we: "weights_entries m wi = flat ?rows ?cols"
    by (simp add: weights_entries_def Let_def)
  have cout: "fst (?C c) = first_raise (\<lambda>row. EO (wi, c, row)) (?rows c)" for c
    by (simp add: column_trace_def seq_traces_def entry_trace_def EO_def)
  have 3: "col \<in> set (scanned (\<lambda>c. fst (?C c)) ?cols)"
    and 4: "row \<in> set (scanned (\<lambda>r. fst (?E r)) (?rows col))"
    using scanned_flat_mem [OF 2 [unfolded we]]
    by (simp_all add: cout entry_trace_def EO_def)
  have a: "sublist (snd (snd (?E row))) (snd (snd (?C col)))"
    using sublist_concat_map [OF 4, of "\<lambda>r. snd (snd (?E r))"]
    by (simp add: column_trace_def seq_traces_def)
  have b: "sublist (snd (snd (?C col))) (snd (snd (seq_traces ?C ?cols)))"
    using sublist_concat_map [OF 3, of "\<lambda>c. snd (snd (?C c))"]
    by (simp add: seq_traces_def)
  have c: "sublist (snd (snd (seq_traces ?C ?cols))) (snd (snd (?W wi)))"
    unfolding weights_trace_opt(3) [OF opt] by (rule sublist_append_leftI)
  have d: "sublist (snd (snd (?W wi))) (snd (snd (scan_trace cb obj h expected m)))"
    using sublist_concat_map [OF 1, of "\<lambda>wi. snd (snd (?W wi))"]
    by (simp add: scan_trace_def seq_traces_def)
  have "sublist (snd (snd (?E row))) (snd (snd (scan_trace cb obj h expected m)))"
    by (rule sublist_trans [OF sublist_trans [OF sublist_trans [OF a b] c] d])
  then show ?thesis by (simp add: entry_trace_def)
qed

lemma up_to_first_none: "\<not> (\<exists>x \<in> set xs. P x) \<Longrightarrow> up_to_first P xs = xs"
  by (induction xs) (auto simp: up_to_first_def)


lemma entry_outcome_throws:
  "(\<lambda>(wi, col, row). entry_outcome cb obj h expected ws wi row col) x \<noteq> Returned
     \<longleftrightarrow> entry_throws cb obj h expected ws x"
  by (cases x) (auto simp: entry_outcome_def entry_throws_def)

lemma do_check_gradients_run:
  fixes cb :: "'mode check_gradients" and m :: "'mode model"
    and obj :: "weights list \<Rightarrow> DataType" and eps :: real
  defines "h \<equiv> step_size eps cb (obj (get_weights m))"
      and "expected \<equiv> expected_error eps cb (obj (get_weights m))"
  defines "throws \<equiv> entry_throws cb obj h expected (get_weights m)"
  assumes needed: "check_needed cb m"
  shows "fst (do_check_gradients cb eps obj m) =
           (if \<exists>x \<in> set (scan_order m). throws x then Raised error_message else Returned)"
    and "calls (snd (do_check_gradients cb eps obj m)) =
           calls m @ prelude_calls m
           @ concat (map (\<lambda>(wi, col, row). entry_calls m h wi row col)
                       (up_to_first throws (scan_order m)))
           @ (if \<exists>x \<in> set (scan_order m). throws x then [] else cleanup_calls m)"
    and "(wi, col, row) \<in> set (up_to_first throws (scan_order m)) \<Longrightarrow>
           sublist (entry_lines cb obj h expected (get_weights m) wi row col)
             (cout (snd (do_check_gradients cb eps obj m)))"
proof -
  let ?EO = "\<lambda>(wi, col, row). entry_outcome cb obj h expected (get_weights m) wi row col"
  have throws: "(\<lambda>x. ?EO x \<noteq> Returned) = throws"
    unfolding throws_def by (rule ext) (rule entry_outcome_throws)
  have sc: "scanned ?EO (scan_order m) = up_to_first throws (scan_order m)"
    by (simp add: scanned_up_to_first throws)
  have "first_raise ?EO (scan_order m) =
      (if \<exists>x \<in> set (scan_order m). ?EO x \<noteq> Returned then Raised error_message else Returned)"
    by (rule first_raise_cases) (auto simp: entry_outcome_def)
  then have out: "fst (scan_trace cb obj h expected m) =
      (if \<exists>x \<in> set (scan_order m). throws x then Raised error_message else Returned)"
    by (simp add: scan_trace_flat(1) throws [symmetric])
  have cs: "fst (snd (scan_trace cb obj h expected m)) =
      concat (map (\<lambda>(wi, col, row). entry_calls m h wi row col)
               (up_to_first throws (scan_order m)))"
    by (simp add: scan_trace_flat(2) sc)
  show "fst (do_check_gradients cb eps obj m) =
           (if \<exists>x \<in> set (scan_order m). throws x then Raised error_message else Returned)"
    using out by (simp add: do_check_gradients_eq [OF needed] Let_def h_def expected_def)
  show "calls (snd (do_check_gradients cb eps obj m)) =
           calls m @ prelude_calls m
           @ concat (map (\<lambda>(wi, col, row). entry_calls m h wi row col)
                       (up_to_first throws (scan_order m)))
           @ (if \<exists>x \<in> set (scan_order m). throws x then [] else cleanup_calls m)"
    using out cs
    by (simp add: do_check_gradients_eq [OF needed] Let_def h_def [symmetric]
        expected_def [symmetric])
  show "sublist (entry_lines cb obj h expected (get_weights m) wi row col)
          (cout (snd (do_check_gradients cb eps obj m)))"
    if "(wi, col, row) \<in> set (up_to_first throws (scan_order m))"
  proof -
    have "sublist (entry_lines cb obj h expected (get_weights m) wi row col)
            (snd (snd (scan_trace cb obj h expected m)))"
      using that by (intro scan_trace_lines) (simp add: sc)
    then show ?thesis
      by (simp add: do_check_gradients_eq [OF needed] Let_def h_def [symmetric]
          expected_def [symmetric] sublist_in_logged del: append_assoc)
  qed
qed

subsection \<open>Runs on the model with two rows\<close>


lemma up_to_first_hit: "P x \<Longrightarrow> up_to_first P (x # xs) = [x]"
  by (simp add: up_to_first_def)


lemma two_rows_scan_order: "scan_order (two_rows g) = [(0, 0, 0), (0, 0, 1)]"
proof -
  have "[0..<2] = [0, Suc 0]" by (simp add: upt_rec [of 0] upt_rec [of "Suc 0"])
  then show ?thesis
    by (simp add: scan_order_def weights_entries_def flat_def two_rows_def column_matrix_def)
qed

lemma two_rows_throws:
  "entry_throws strict square h expected (get_weights (two_rows NaN)) (0, 0, 0)"
proof -
  have nan: "entry_error square h (get_weights (two_rows NaN)) 0 0 0 = NaN"
    by (simp add: entry_error_def entry_analytical_def two_rows_def column_matrix_def
        GetLocal_def minus_DataType_def)
  have cmp: "entry_compared (get_weights (two_rows NaN)) 0 0 0"
    by (simp add: entry_compared_def two_rows_def column_matrix_def)
  show ?thesis
    by (simp add: entry_throws_def entry_fails_def cmp nan large_error_def strict_def)
qed



subsection \<open>Weights when a collaborator throws\<close>
















subsection \<open>The claims\<close>



text \<open>
  C4. The finite-difference step \<open>h\<close> is the configured step size when that is \<open>> 0\<close>,
  and \<open>|f0| * sqrt(eps^0.9)\<close> otherwise, where \<open>f0\<close> is the objective value before any
  perturbation and \<open>eps\<close> the machine epsilon. A run on the world master reports \<open>f0\<close>
  and this \<open>h\<close>.
\<close>

theorem finite_difference_step:
  assumes "m_modes cb = {} \<or> get_execution_mode m \<in> m_modes cb"
      and "am_world_master m"
  shows "(let f0 = obj (get_weights m);
              h = (if dt_greater (m_step_size cb) (Fin 0) then m_step_size cb
                   else fabs f0 * std_sqrt (pow_0_9 (Fin eps)))
          in step_size eps cb f0 = h
             \<and> prefix (cout m @ [Rule, GradientChecking, ObjectiveFunctionValue f0, StepSize h])
                 (cout (snd (do_check_gradients cb eps obj m))))"
proof -
  have "check_needed cb m" using assms(1) by (simp add: check_needed_def)
  then show ?thesis
    using assms(2)
    by (simp add: do_check_gradients_eq Let_def header_lines_def step_size_def epsilon_def)
qed

theorem finite_difference_step_witness:
  "step_size float_epsilon fixed_step (Fin 1) = Fin (1 / 1024)
   \<and> prefix [Rule, GradientChecking, ObjectiveFunctionValue (Fin 1), StepSize (Fin (1 / 1024))]
       (cout (snd (do_check_gradients fixed_step float_epsilon square (one_weight (Fin 2)))))"
  using finite_difference_step [of fixed_step "one_weight (Fin 2)" square float_epsilon]
  by (simp add: fixed_step_def one_weight_def square_def scalar_matrix_def GetLocal_def
      dt_greater_def Let_def)

text \<open>
  C3, as amended. The expected error is \<open>((eps^0.9 * f0 / h) + h^4 / 18)^0.9\<close>, where
  \<open>f0\<close> is the objective value before any perturbation, \<open>h\<close> the finite-difference step
  and \<open>eps\<close> the machine epsilon: the first term has the 0.9th power of the machine
  epsilon, the \<open>epsilon\<close> of line 117. A run on the world master reports this value.
\<close>

theorem expected_error_bound:
  assumes "m_modes cb = {} \<or> get_execution_mode m \<in> m_modes cb"
      and "am_world_master m"
  shows "prefix (cout m @ [Rule, GradientChecking,
             ObjectiveFunctionValue (obj (get_weights m)),
             StepSize (step_size eps cb (obj (get_weights m))),
             ExpectedGradientError
               (pow_0_9 (pow_0_9 (Fin eps) * obj (get_weights m)
                           / step_size eps cb (obj (get_weights m))
                         + pow_4 (step_size eps cb (obj (get_weights m))) / Fin 18))])
           (cout (snd (do_check_gradients cb eps obj m)))"
proof -
  have "check_needed cb m" using assms(1) by (simp add: check_needed_def)
  then show ?thesis
    using assms(2)
    by (simp add: do_check_gradients_eq Let_def header_lines_def expected_error_def epsilon_def)
qed

theorem expected_error_bound_witness:
  "prefix [Rule, GradientChecking, ObjectiveFunctionValue (Fin 1), StepSize (Fin (1 / 1024)),
           ExpectedGradientError
             (pow_0_9 (pow_0_9 (Fin float_epsilon) * Fin 1 / Fin (1 / 1024)
                       + pow_4 (Fin (1 / 1024)) / Fin 18))]
     (cout (snd (do_check_gradients fixed_step float_epsilon square (one_weight (Fin 2)))))"
proof -
  have step: "step_size float_epsilon fixed_step (Fin 1) = Fin (1 / 1024)"
    by (simp add: step_size_def fixed_step_def dt_greater_def)
  have obj: "square (get_weights (one_weight (Fin 2))) = Fin 1"
    by (simp add: one_weight_def square_def scalar_matrix_def GetLocal_def)
  show ?thesis
    using expected_error_bound [of fixed_step "one_weight (Fin 2)" square float_epsilon]
    unfolding obj step
    by (simp add: fixed_step_def one_weight_def)
qed

text \<open>
  C3 as stated, with the machine epsilon itself in the first term, fails: for \<open>float\<close>
  (\<open>eps = 2^-23\<close>), \<open>f0 = 1\<close> and the fixed step \<open>h = 2^-10\<close>, the value it gives is not
  the expected error that the run reports.
\<close>

theorem expected_error_counterexample:
  "ExpectedGradientError (claimed_expected_error float_epsilon (Fin 1) (Fin (1 / 1024)))
     \<notin> set (cout (snd (do_check_gradients fixed_step float_epsilon (\<lambda>ws. Fin 1) no_weights)))"
proof -
  have needed: "check_needed fixed_step no_weights"
    by (simp add: check_needed_def fixed_step_def)
  have "cout (snd (do_check_gradients fixed_step float_epsilon (\<lambda>ws. Fin 1) no_weights))
      = header_lines float_epsilon fixed_step (Fin 1) @ [Rule]"
    by (simp add: do_check_gradients_eq [OF needed] Let_def scan_trace_def)
       (simp add: no_weights_def)
  then show ?thesis
    using expected_error_differs by (auto simp: header_lines_def)
qed

text \<open>
  C8, as amended. The relative error that is reported is
  \<open>|analytical - numerical| / max(|analytical|, |numerical|)\<close> when
  \<open>|analytical - numerical| != 0\<close> holds, and zero otherwise; the quotient is computed
  only in the first case, and its denominator is then zero in one case only: the
  analytical gradient is zero and the numerical gradient is a NaN.
\<close>

theorem relative_error_quotient:
  "relative_error a n =
     (if dt_ne (fabs (a - n)) (Fin 0) then fabs (a - n) / std_max (fabs a) (fabs n)
      else Fin 0)
   \<and> (dt_ne (fabs (a - n)) (Fin 0) \<longrightarrow>
        (is_zero (std_max (fabs a) (fabs n)) \<longleftrightarrow> is_zero a \<and> isnan n))
   \<and> last (entry_report w0 a n) = RelativeError (relative_error a n)"
proof -
  have "is_zero (std_max (fabs a) (fabs n)) \<longleftrightarrow> is_zero a \<and> isnan n"
    if "dt_ne (fabs (a - n)) (Fin 0)"
    using that
    by (cases a; cases n) (auto simp: dt_ne_def std_max_def minus_DataType_def)
  then show ?thesis by (auto simp: relative_error_def Let_def entry_report_def)
qed

theorem relative_error_quotient_witness:
  "relative_error (Fin 3) (Fin 1) = Fin (2 / 3)
   \<and> \<not> is_zero (std_max (fabs (Fin 3)) (fabs (Fin 1)))
   \<and> \<not> is_zero (std_max (fabs (Fin 3)) (fabs NaN))"
  using relative_error_quotient [of "Fin 3" "Fin 1" "Fin 0"]
    relative_error_quotient [of "Fin 3" NaN "Fin 0"]
  by (simp add: dt_ne_def minus_DataType_def std_max_def)

text \<open>
  C8 as stated fails for an analytical gradient 0 and a numerical gradient NaN: the
  error is a NaN, so \<open>error != 0\<close> holds and the quotient is computed, and
  \<open>std::max(0, NaN)\<close>, which is \<open>(0 < NaN) ? NaN : 0\<close>, is 0.
\<close>

theorem relative_error_counterexample:
  "dt_ne (fabs (Fin 0 - NaN)) (Fin 0)
   \<and> std_max (fabs (Fin 0)) (fabs NaN) = Fin 0
   \<and> relative_error (Fin 0) NaN = fabs (Fin 0 - NaN) / Fin 0"
  by (simp add: dt_ne_def minus_DataType_def std_max_def relative_error_def)




text \<open>
  C5. An entry that is compared fails the check iff its error exceeds the expected
  error or is a NaN or an infinity. The run throws iff \<open>error_on_failure\<close> is set and
  some entry fails. The entries that it checks are those up to and including the first
  failing entry when \<open>error_on_failure\<close> is set, and all entries otherwise: its calls
  are the calls before the loops, the calls of these entries in the order of the loops,
  and the calls after the loops iff it returns. So a throw comes at the first failing
  entry, before any later entry is set or evaluated, and the last calls and the last
  output are then those of that entry. Without \<open>error_on_failure\<close> the run returns and
  checks every entry. Every failing entry that is checked is reported. For the check of
  one entry in any state: it throws iff the entry fails and \<open>error_on_failure\<close> is set,
  and it writes the "GRADIENT ERROR" report iff the entry fails.
\<close>

theorem failure_policy:
  assumes "m_modes cb = {} \<or> get_execution_mode m \<in> m_modes cb"
  shows "(let ws = get_weights m;
              h = step_size eps cb (obj ws);
              expected = expected_error eps cb (obj ws);
              failing = (\<lambda>wi row col.
                 entry_compared ws wi row col
                 \<and> (dt_greater (entry_error obj h ws wi row col) expected
                    \<or> isnan (entry_error obj h ws wi row col)
                    \<or> isinf (entry_error obj h ws wi row col)));
              report = (\<lambda>wi row col.
                 GradientError (get_name (ws ! wi)) row col # entry_details obj h ws wi row col);
              throws = (\<lambda>(wi, col, row). m_error_on_failure cb \<and> failing wi row col);
              reached = up_to_first throws (scan_order m);
              result = do_check_gradients cb eps obj m
          in (\<forall>wi row col. (wi, col, row) \<in> set (scan_order m) \<longleftrightarrow> checked_entry m wi row col)
             \<and> fst result =
                 (if \<exists>x \<in> set (scan_order m). throws x then Raised error_message
                  else Returned)
             \<and> calls (snd result) =
                 calls m @ prelude_calls m
                 @ concat (map (\<lambda>(wi, col, row). entry_calls m h wi row col) reached)
                 @ (if fst result = Returned then cleanup_calls m else [])
             \<and> (\<not> m_error_on_failure cb \<longrightarrow> fst result = Returned \<and> reached = scan_order m)
             \<and> (\<forall>(wi, col, row) \<in> set reached.
                  failing wi row col \<longrightarrow> sublist (report wi row col) (cout (snd result)))
             \<and> (\<forall>e. fst result = Raised e \<longrightarrow>
                  m_error_on_failure cb \<and> e = error_message
                  \<and> (\<exists>wi row col. checked_entry m wi row col \<and> failing wi row col
                        \<and> suffix (entry_calls m h wi row col) (calls (snd result))
                        \<and> suffix (report wi row col) (cout (snd result)))))
       \<and> (k < length (get_weights s) \<longrightarrow>
            (let ws = get_weights s;
                 error = entry_error obj h' ws k i j;
                 failing = (entry_compared ws k i j
                            \<and> (dt_greater error e' \<or> isnan error \<or> isinf error));
                 result = check_entry cb obj h' e' k i j s
             in fst result =
                  (if failing \<and> m_error_on_failure cb then Raised error_message
                   else Returned)
                \<and> cout (snd result) = cout s @
                  (if failing
                   then GradientError (get_name (ws ! k)) i j # entry_details obj h' ws k i j
                   else if entry_compared ws k i j \<and> m_verbose cb
                   then Entry (get_name (ws ! k)) i j # entry_details obj h' ws k i j
                   else [])))"
proof -
  let ?ws = "get_weights m"
  let ?h = "step_size eps cb (obj ?ws)"
  let ?e = "expected_error eps cb (obj ?ws)"
  let ?result = "do_check_gradients cb eps obj m"
  let ?throws = "entry_throws cb obj ?h ?e ?ws"
  let ?reached = "up_to_first ?throws (scan_order m)"
  have needed: "check_needed cb m" using assms by (simp add: check_needed_def)
  note run = do_check_gradients_run [OF needed, where eps = eps and obj = obj]
  have fails: "entry_fails obj ?h ?e ?ws wi row col \<longleftrightarrow>
     entry_compared ?ws wi row col
     \<and> (dt_greater (entry_error obj ?h ?ws wi row col) ?e
        \<or> isnan (entry_error obj ?h ?ws wi row col)
        \<or> isinf (entry_error obj ?h ?ws wi row col))" for wi row col
    by (simp add: entry_fails_def large_error_def)
  have throws: "?throws =
      (\<lambda>(wi, col, row). m_error_on_failure cb \<and> entry_fails obj ?h ?e ?ws wi row col)"
    by (simp add: entry_throws_def)
  have order: "\<forall>wi row col. (wi, col, row) \<in> set (scan_order m) \<longleftrightarrow> checked_entry m wi row col"
    by (simp add: scan_order_set)
  have out: "fst ?result =
      (if \<exists>x \<in> set (scan_order m). ?throws x then Raised error_message else Returned)"
    by (rule run(1))
  have ret: "fst ?result = Returned \<longleftrightarrow> \<not> (\<exists>x \<in> set (scan_order m). ?throws x)"
    by (simp add: run(1))
  have calls: "calls (snd ?result) =
      calls m @ prelude_calls m
      @ concat (map (\<lambda>(wi, col, row). entry_calls m ?h wi row col) ?reached)
      @ (if fst ?result = Returned then cleanup_calls m else [])"
    unfolding ret by (simp add: run(2))
  have a: "fst ?result = Returned \<and> ?reached = scan_order m" if "\<not> m_error_on_failure cb"
  proof -
    have none: "\<not> (\<exists>x \<in> set (scan_order m). ?throws x)"
      using that by (auto simp: entry_throws_def)
    then show ?thesis using up_to_first_none [OF none] by (simp add: ret)
  qed
  have b: "\<forall>(wi, col, row) \<in> set ?reached.
      entry_fails obj ?h ?e ?ws wi row col \<longrightarrow>
        sublist (GradientError (get_name (?ws ! wi)) row col
                 # entry_details obj ?h ?ws wi row col) (cout (snd ?result))"
  proof clarify
    fix wi col row
    assume mem: "(wi, col, row) \<in> set ?reached" and f: "entry_fails obj ?h ?e ?ws wi row col"
    have "sublist (entry_lines cb obj ?h ?e ?ws wi row col) (cout (snd ?result))"
      using mem by (rule run(3))
    then show "sublist (GradientError (get_name (?ws ! wi)) row col
                 # entry_details obj ?h ?ws wi row col) (cout (snd ?result))"
      using f by (simp add: entry_lines_def)
  qed
  have c: "m_error_on_failure cb \<and> e = error_message
     \<and> (\<exists>wi row col. checked_entry m wi row col \<and> entry_fails obj ?h ?e ?ws wi row col
           \<and> suffix (entry_calls m ?h wi row col) (calls (snd ?result))
           \<and> suffix (GradientError (get_name (?ws ! wi)) row col
                      # entry_details obj ?h ?ws wi row col) (cout (snd ?result)))"
    if raised: "fst ?result = Raised e" for e
  proof -
    obtain wi row col where entry: "checked_entry m wi row col"
        and o: "entry_outcome cb obj ?h ?e ?ws wi row col = Raised e"
        and cs: "suffix (entry_calls m ?h wi row col) (calls (snd ?result))"
        and ls: "suffix (entry_lines cb obj ?h ?e ?ws wi row col) (cout (snd ?result))"
      using do_check_gradients_Raised [OF needed raised] by blast
    have f: "entry_fails obj ?h ?e ?ws wi row col" "m_error_on_failure cb" "e = error_message"
      using o by (auto simp: entry_outcome_def split: if_splits)
    then have "entry_lines cb obj ?h ?e ?ws wi row col =
        GradientError (get_name (?ws ! wi)) row col # entry_details obj ?h ?ws wi row col"
      by (simp add: entry_lines_def)
    then show ?thesis using entry f cs ls by auto
  qed
  have d: "fst (check_entry cb obj h' e' k i j s) =
             (if entry_fails obj h' e' (get_weights s) k i j \<and> m_error_on_failure cb
              then Raised error_message else Returned)
     \<and> cout (snd (check_entry cb obj h' e' k i j s)) = cout s @
             (if entry_fails obj h' e' (get_weights s) k i j
              then GradientError (get_name (get_weights s ! k)) i j
                   # entry_details obj h' (get_weights s) k i j
              else if entry_compared (get_weights s) k i j \<and> m_verbose cb
              then Entry (get_name (get_weights s ! k)) i j
                   # entry_details obj h' (get_weights s) k i j
              else [])"
    if "k < length (get_weights s)"
    using that by (simp add: check_entry_eq entry_outcome_def entry_lines_def)
  have fails': "entry_fails obj h' e' (get_weights s) k i j \<longleftrightarrow>
     entry_compared (get_weights s) k i j
     \<and> (dt_greater (entry_error obj h' (get_weights s) k i j) e'
        \<or> isnan (entry_error obj h' (get_weights s) k i j)
        \<or> isinf (entry_error obj h' (get_weights s) k i j))"
    by (simp add: entry_fails_def large_error_def)
  show ?thesis
    unfolding Let_def fails [symmetric] fails' [symmetric] throws [symmetric]
    using order out calls a b c d by blast
qed

theorem failure_policy_witness:
  "fst (do_check_gradients fixed_step float_epsilon square (one_weight (Fin 2))) = Returned
   \<and> fst (do_check_gradients strict float_epsilon square (two_rows NaN)) = Raised error_message
   \<and> calls (snd (do_check_gradients strict float_epsilon square (two_rows NaN))) =
       prelude_calls (two_rows NaN) @ entry_calls (two_rows NaN) (Fin (1 / 1024)) 0 0 0
   \<and> sublist (GradientError ''w'' 0 0
               # entry_details square (Fin (1 / 1024)) (get_weights (two_rows NaN)) 0 0 0)
       (cout (snd (do_check_gradients strict float_epsilon square (two_rows NaN))))"
proof -
  have n1: "m_modes fixed_step = {}" "\<not> m_error_on_failure fixed_step"
    by (simp_all add: fixed_step_def)
  have n2: "get_execution_mode (two_rows NaN) \<in> m_modes strict"
    by (simp add: strict_def two_rows_def)
  have facts: "get_name (get_weights (two_rows NaN) ! 0) = ''w''" "calls (two_rows NaN) = []"
    "m_error_on_failure strict"
    by (simp_all add: two_rows_def strict_def)
  have a: "fst (do_check_gradients fixed_step float_epsilon square (one_weight (Fin 2)))
             = Returned"
    using failure_policy [of fixed_step "one_weight (Fin 2)" float_epsilon square,
        OF disjI1 [OF n1(1)]] n1(2)
    by (simp add: Let_def)
  have throws: "entry_compared (get_weights (two_rows NaN)) 0 0 0
      \<and> isnan (entry_error square (Fin (1 / 1024)) (get_weights (two_rows NaN)) 0 0 0)"
    using two_rows_throws [of "Fin (1 / 1024)" "Fin 0"]
    by (simp add: entry_throws_def entry_fails_def large_error_def)
       (simp add: entry_error_def entry_analytical_def two_rows_def column_matrix_def
         GetLocal_def minus_DataType_def)
  have b: "fst (do_check_gradients strict float_epsilon square (two_rows NaN))
             = Raised error_message
   \<and> calls (snd (do_check_gradients strict float_epsilon square (two_rows NaN))) =
       prelude_calls (two_rows NaN) @ entry_calls (two_rows NaN) (Fin (1 / 1024)) 0 0 0
   \<and> sublist (GradientError ''w'' 0 0
               # entry_details square (Fin (1 / 1024)) (get_weights (two_rows NaN)) 0 0 0)
       (cout (snd (do_check_gradients strict float_epsilon square (two_rows NaN))))"
    using failure_policy [of strict "two_rows NaN" float_epsilon square, OF disjI2 [OF n2]]
    by (simp add: Let_def strict_step_size two_rows_scan_order throws facts up_to_first_hit)
  show ?thesis using a b by simp
qed





end
